theory Spec2Isabelle
  imports Main
begin

section \<open>Python values read from and written to the store file\<close>

text \<open>
  The persistent memory of the chatbot (\<^verbatim>\<open>src/memory.py\<close>) keeps a conversation in a
  JSON file. What \<^verbatim>\<open>json.load\<close> returns is a Python value built from \<^verbatim>\<open>None\<close>,
  booleans, numbers, strings, lists and dicts. A dict is an association list in insertion
  order (its keys are distinct, as in Python). A float is kept as the text of its Python
  \<^verbatim>\<open>repr\<close>. A character is a code point below 256.
\<close>

datatype json =
    JNull
  | JBool bool
  | JInt int
  | JFloat string
  | JStr string
  | JArr "json list"
  | JObj "(string \<times> json) list"

datatype py_error =
    JSONDecodeError
  | ValueError string
  | TypeError string
  | AttributeError
  | NameError string
  | KeyError string
  | OSError

text \<open>The two message classes of \<^verbatim>\<open>langchain_core.messages\<close> that the code builds.\<close>

datatype message = HumanMessage string | AIMessage string

datatype role = User | Assistant

fun content :: "message \<Rightarrow> string" where
  "content (HumanMessage c) = c"
| "content (AIMessage c) = c"

fun role_of :: "message \<Rightarrow> role" where
  "role_of (HumanMessage c) = User"
| "role_of (AIMessage c) = Assistant"

subsection \<open>\<^verbatim>\<open>str.strip()\<close>\<close>

text \<open>
  \<^verbatim>\<open>str.strip()\<close> without argument removes the leading and trailing characters for
  which \<^verbatim>\<open>str.isspace\<close> holds; below 256 these are the code points 9 to 13, 28 to 32,
  133 and 160.
\<close>

definition isspace :: "char \<Rightarrow> bool" where
  "isspace c = (let n = (of_char c :: nat) in
     (9 \<le> n \<and> n \<le> 13) \<or> (28 \<le> n \<and> n \<le> 32) \<or> n = 133 \<or> n = 160)"

definition strip :: "string \<Rightarrow> string" where
  "strip s = rev (dropWhile isspace (rev (dropWhile isspace s)))"

subsection \<open>The test \<^verbatim>\<open>p in s\<close> on strings\<close>

fun startswith :: "string \<Rightarrow> string \<Rightarrow> bool" where
  "startswith [] s = True"
| "startswith (x # p) [] = False"
| "startswith (x # p) (y # s) = (x = y \<and> startswith p s)"

fun py_in :: "string \<Rightarrow> string \<Rightarrow> bool" where
  "py_in p [] = (p = [])"
| "py_in p (y # s) = (startswith p (y # s) \<or> py_in p s)"

subsection \<open>\<^verbatim>\<open>str(item)\<close>: the \<^verbatim>\<open>repr\<close> of a Python value\<close>

fun dec_digits :: "nat \<Rightarrow> nat \<Rightarrow> string" where
  "dec_digits 0 n = []"
| "dec_digits (Suc fuel) n =
     (if n < 10 then [char_of (48 + n)]
      else dec_digits fuel (n div 10) @ [char_of (48 + n mod 10)])"

definition repr_int :: "int \<Rightarrow> string" where
  "repr_int i =
     (if i < 0 then CHR ''-'' # dec_digits (Suc (nat (- i))) (nat (- i))
      else dec_digits (Suc (nat i)) (nat i))"

definition hex_digit :: "nat \<Rightarrow> char" where
  "hex_digit n = (if n < 10 then char_of (48 + n) else char_of (87 + n))"

definition isprintable :: "char \<Rightarrow> bool" where
  "isprintable c = (let n = (of_char c :: nat) in
     (32 \<le> n \<and> n < 127) \<or> (161 \<le> n \<and> n \<noteq> 173))"

text \<open>
  One character inside a string \<^verbatim>\<open>repr\<close> written with the quote \<open>q\<close>: the backslash
  and the quote are escaped, tab, newline and carriage return have their short escapes,
  any other character that is not printable is written \<^verbatim>\<open>\xNN\<close> in lower-case
  hexadecimal, and a printable character stands for itself.
\<close>

definition repr_char :: "char \<Rightarrow> char \<Rightarrow> string" where
  "repr_char q c =
     (if c = CHR 0x5C then [CHR 0x5C, CHR 0x5C]
      else if c = q then [CHR 0x5C, q]
      else if c = CHR 0x09 then [CHR 0x5C, CHR ''t'']
      else if c = CHR 0x0A then [CHR 0x5C, CHR ''n'']
      else if c = CHR 0x0D then [CHR 0x5C, CHR ''r'']
      else if \<not> isprintable c then
        [CHR 0x5C, CHR ''x'', hex_digit ((of_char c :: nat) div 16),
         hex_digit ((of_char c :: nat) mod 16)]
      else [c])"

text \<open>
  A string is written in single quotes, unless it holds a single quote and no double
  quote: then it is written in double quotes.
\<close>

definition repr_quote :: "string \<Rightarrow> char" where
  "repr_quote s =
     (if CHR 0x27 \<in> set s \<and> CHR 0x22 \<notin> set s then CHR 0x22 else CHR 0x27)"

definition repr_str :: "string \<Rightarrow> string" where
  "repr_str s =
     (let q = repr_quote s in q # concat (map (repr_char q) s) @ [q])"

fun join_comma :: "string list \<Rightarrow> string" where
  "join_comma [] = []"
| "join_comma [x] = x"
| "join_comma (x # y # ys) = x @ '', '' @ join_comma (y # ys)"

fun py_str :: "json \<Rightarrow> string" where
  "py_str JNull = ''None''"
| "py_str (JBool b) = (if b then ''True'' else ''False'')"
| "py_str (JInt i) = repr_int i"
| "py_str (JFloat r) = r"
| "py_str (JStr s) = repr_str s"
| "py_str (JArr xs) = ''['' @ join_comma (map py_str xs) @ '']''"
| "py_str (JObj kvs) =
     ''{'' @ join_comma (map (\<lambda>kv. repr_str (fst kv) @ '': '' @ py_str (snd kv)) kvs) @ ''}''"

section \<open>The persistent memory (\<^verbatim>\<open>src/memory.py\<close>)\<close>

text \<open>
  The file system is a map from paths to file contents; directories, permissions and
  device errors are not modelled. \<^verbatim>\<open>os.rename\<close> replaces an existing destination, as on
  POSIX. \<^verbatim>\<open>json.load\<close> (with the UTF-8 decoding of \<^verbatim>\<open>open\<close>) and \<^verbatim>\<open>json.dump\<close> belong
  to the Python library: they are the parameters \<open>json_load\<close> (\<open>None\<close> when it raises) and
  \<open>json_dump\<close>.
\<close>

type_synonym fs = "string \<Rightarrow> string option"

record store =
  path :: string
  messages :: "message list"

definition exists_path :: "fs \<Rightarrow> string \<Rightarrow> bool" where
  "exists_path f p = (f p \<noteq> None)"

definition os_remove :: "fs \<Rightarrow> string \<Rightarrow> py_error + fs" where
  "os_remove f p = (case f p of None \<Rightarrow> Inl OSError | Some b \<Rightarrow> Inr (f(p := None)))"

definition os_rename :: "fs \<Rightarrow> string \<Rightarrow> string \<Rightarrow> py_error + fs" where
  "os_rename f src dst =
     (case f src of None \<Rightarrow> Inl OSError | Some b \<Rightarrow> Inr ((f(src := None))(dst \<mapsto> b)))"

definition write_file :: "fs \<Rightarrow> string \<Rightarrow> string \<Rightarrow> fs" where
  "write_file f p b = f(p \<mapsto> b)"

text \<open>\<^verbatim>\<open>d.get(k, default)\<close> on a dict.\<close>

definition dict_get :: "(string \<times> json) list \<Rightarrow> string \<Rightarrow> json \<Rightarrow> json" where
  "dict_get d k dflt = (case map_of d k of None \<Rightarrow> dflt | Some v \<Rightarrow> v)"

text \<open>
  Line 57: \<^verbatim>\<open>item.get("data", {}).get("content", item.get("content", "")).strip()\<close>.
  A value under \<^verbatim>\<open>"data"\<close> that is not a dict has no \<^verbatim>\<open>get\<close>, and a content that is not
  a string has no \<^verbatim>\<open>strip\<close>: both raise \<^verbatim>\<open>AttributeError\<close>.
\<close>

definition item_content :: "(string \<times> json) list \<Rightarrow> py_error + string" where
  "item_content item =
     (case dict_get item ''data'' (JObj []) of
        JObj d \<Rightarrow>
          (case dict_get d ''content'' (dict_get item ''content'' (JStr [])) of
             JStr c \<Rightarrow> Inr (strip c)
           | _ \<Rightarrow> Inl AttributeError)
      | _ \<Rightarrow> Inl AttributeError)"

text \<open>
  One turn of the loop of \<^verbatim>\<open>_verify_and_load\<close> (lines 53 to 66): \<open>Inr None\<close> when the
  entry is skipped, \<open>Inr (Some m)\<close> when \<open>m\<close> is appended, \<open>Inl e\<close> when the turn raises.
\<close>

fun validate_item :: "json \<Rightarrow> py_error + message option" where
  "validate_item (JObj item) =
     (case item_content item of
        Inl e \<Rightarrow> Inl e
      | Inr c \<Rightarrow>
          (let msg_type = dict_get item ''type'' (JStr []) in
           if c = [] then Inr None
           else if msg_type = JStr ''human'' \<or> py_in ''HumanMessage'' (py_str (JObj item))
             then Inr (Some (HumanMessage c))
           else if msg_type = JStr ''ai'' \<or> py_in ''AIMessage'' (py_str (JObj item))
             then Inr (Some (AIMessage c))
           else Inr None))"
| "validate_item _ = Inr None"

fun validate_items :: "json list \<Rightarrow> message list \<Rightarrow> py_error + message list" where
  "validate_items [] validated_messages = Inr validated_messages"
| "validate_items (item # data) validated_messages =
     (case validate_item item of
        Inl e \<Rightarrow> Inl e
      | Inr None \<Rightarrow> validate_items data validated_messages
      | Inr (Some m) \<Rightarrow> validate_items data (validated_messages @ [m]))"

text \<open>The body of the \<^verbatim>\<open>try\<close> of \<^verbatim>\<open>_verify_and_load\<close>, up to the assignment.\<close>

definition read_messages :: "(string \<Rightarrow> json option) \<Rightarrow> string \<Rightarrow> py_error + message list" where
  "read_messages json_load bytes =
     (case json_load bytes of
        None \<Rightarrow> Inl JSONDecodeError
      | Some (JArr data) \<Rightarrow> validate_items data []
      | Some _ \<Rightarrow> Inl (ValueError (''Formato inv'' @ [CHR 0xE1] @ ''lido: debe ser lista'')))"

definition backup_and_reset :: "fs \<Rightarrow> store \<Rightarrow> fs \<times> store" where
  "backup_and_reset f st =
     (let backup_path = path st @ ''.bak'';
          f' = (if exists_path f (path st) then
                  (case os_rename f (path st) backup_path of Inl e \<Rightarrow> f | Inr g \<Rightarrow> g)
                else f)
      in (f', st\<lparr>messages := []\<rparr>))"

text \<open>
  \<^verbatim>\<open>_verify_and_load\<close> catches every exception of its body, so the result is always
  \<open>Inr\<close>; the sum type records that no exception reaches the caller.
\<close>

definition verify_and_load ::
  "(string \<Rightarrow> json option) \<Rightarrow> fs \<Rightarrow> store \<Rightarrow> py_error + (fs \<times> store)" where
  "verify_and_load json_load f st =
     (case f (path st) of
        None \<Rightarrow> Inr (f, st)
      | Some bytes \<Rightarrow>
          (case read_messages json_load bytes of
             Inr validated_messages \<Rightarrow>
               Inr (f, if validated_messages \<noteq> [] then st\<lparr>messages := validated_messages\<rparr> else st)
           | Inl e \<Rightarrow> Inr (backup_and_reset f st)))"

text \<open>
  \<^verbatim>\<open>PersistentChatMemory(path)\<close>: a fresh instance has an empty buffer and loads the
  file.
\<close>

definition init :: "(string \<Rightarrow> json option) \<Rightarrow> fs \<Rightarrow> string \<Rightarrow> py_error + (fs \<times> store)" where
  "init json_load f p = verify_and_load json_load f \<lparr>path = p, messages = []\<rparr>"

text \<open>
  \<^verbatim>\<open>message_to_dict\<close> of \<^verbatim>\<open>langchain_core\<close>: the type tag and, under \<^verbatim>\<open>"data"\<close>, the
  fields of the message, the content first. The other fields have their default values.
\<close>

definition human_fields :: "(string \<times> json) list" where
  "human_fields =
     [(''additional_kwargs'', JObj []), (''response_metadata'', JObj []),
      (''type'', JStr ''human''), (''name'', JNull), (''id'', JNull),
      (''example'', JBool False)]"

definition ai_fields :: "(string \<times> json) list" where
  "ai_fields =
     [(''additional_kwargs'', JObj []), (''response_metadata'', JObj []),
      (''type'', JStr ''ai''), (''name'', JNull), (''id'', JNull),
      (''example'', JBool False), (''tool_calls'', JArr []),
      (''invalid_tool_calls'', JArr []), (''usage_metadata'', JNull)]"

fun message_to_dict :: "message \<Rightarrow> json" where
  "message_to_dict (HumanMessage c) =
     JObj [(''type'', JStr ''human''), (''data'', JObj ((''content'', JStr c) # human_fields))]"
| "message_to_dict (AIMessage c) =
     JObj [(''type'', JStr ''ai''), (''data'', JObj ((''content'', JStr c) # ai_fields))]"

text \<open>Lines 137 and 138: the records that \<^verbatim>\<open>_atomic_save\<close> writes.\<close>

definition save_records :: "store \<Rightarrow> json list" where
  "save_records st = map message_to_dict (filter (\<lambda>m. content m \<noteq> []) (messages st))"

text \<open>
  \<^verbatim>\<open>_atomic_save\<close>: write the temporary file, remove the store file when it exists,
  rename the temporary file. An exception of the body is raised again by the handler
  (after it has removed the temporary file), so it is the result \<open>Inl\<close>.
\<close>

definition atomic_save :: "(json \<Rightarrow> string) \<Rightarrow> fs \<Rightarrow> store \<Rightarrow> py_error + fs" where
  "atomic_save json_dump f st =
     (let temp_path = path st @ ''.tmp'';
          f1 = write_file f temp_path (json_dump (JArr (save_records st)))
      in case (if exists_path f1 (path st) then os_remove f1 (path st) else Inr f1) of
           Inl e \<Rightarrow> Inl e
         | Inr f2 \<Rightarrow>
             (case os_rename f2 temp_path (path st) of
                Inl e \<Rightarrow> Inl e
              | Inr f3 \<Rightarrow> Inr f3))"

text \<open>
  The file system that a save leaves behind when the process is stopped on the way:
  while the temporary file is being written (\<open>n\<close> bytes so far), after the temporary
  file is closed, after \<^verbatim>\<open>os.remove\<close> (line 144), and after \<^verbatim>\<open>os.rename\<close> (line 145).
\<close>

datatype stop = InWrite nat | AfterWrite | AfterRemove | AfterRename

definition atomic_save_stopped :: "(json \<Rightarrow> string) \<Rightarrow> stop \<Rightarrow> fs \<Rightarrow> store \<Rightarrow> fs" where
  "atomic_save_stopped json_dump s f st =
     (let temp_path = path st @ ''.tmp'';
          bytes = json_dump (JArr (save_records st));
          f1 = write_file f temp_path bytes;
          f2 = (if exists_path f1 (path st) then f1((path st) := None) else f1)
      in case s of
           InWrite n \<Rightarrow> write_file f temp_path (take n bytes)
         | AfterWrite \<Rightarrow> f1
         | AfterRemove \<Rightarrow> f2
         | AfterRename \<Rightarrow> (f2(temp_path := None))((path st) \<mapsto> bytes))"

text \<open>Truth value of a Python value, as \<^verbatim>\<open>not x\<close> and \<^verbatim>\<open>if x\<close> take it.\<close>

fun truthy :: "json \<Rightarrow> bool" where
  "truthy JNull = False"
| "truthy (JBool b) = b"
| "truthy (JInt i) = (i \<noteq> 0)"
| "truthy (JFloat r) = (r \<noteq> ''0.0'' \<and> r \<noteq> ''-0.0'')"
| "truthy (JStr s) = (s \<noteq> [])"
| "truthy (JArr xs) = (xs \<noteq> [])"
| "truthy (JObj kvs) = (kvs \<noteq> [])"

text \<open>
  An argument of \<^verbatim>\<open>save_context\<close>: a dict that holds text under its keys, as the two
  dicts that \<^verbatim>\<open>app.py\<close> builds from the question and the answer, or a value that is
  not a dict.
\<close>

datatype py_arg = NotADict | TextDict "(string \<times> string) list"

text \<open>
  \<^verbatim>\<open>ConversationBufferMemory.save_context\<close> with the keys \<^verbatim>\<open>"input"\<close> and \<^verbatim>\<open>"output"\<close>:
  it reads \<^verbatim>\<open>inputs["input"]\<close> and \<^verbatim>\<open>outputs["output"]\<close> and appends a human message
  and an AI message with these texts.
\<close>

definition memory_save_context ::
  "store \<Rightarrow> (string \<times> string) list \<Rightarrow> (string \<times> string) list \<Rightarrow> py_error + store" where
  "memory_save_context st input_data output_data =
     (case map_of input_data ''input'' of
        None \<Rightarrow> Inl (KeyError ''input'')
      | Some q \<Rightarrow>
          (case map_of output_data ''output'' of
             None \<Rightarrow> Inl (KeyError ''output'')
           | Some a \<Rightarrow> Inr (st\<lparr>messages := messages st @ [HumanMessage q, AIMessage a]\<rparr>)))"

text \<open>\<^verbatim>\<open>not d.get(k)\<close> on a dict of texts: the key is missing or its text is empty.\<close>

definition not_get :: "(string \<times> string) list \<Rightarrow> string \<Rightarrow> bool" where
  "not_get d k = (case map_of d k of None \<Rightarrow> True | Some s \<Rightarrow> s = [])"

definition save_context ::
  "(json \<Rightarrow> string) \<Rightarrow> fs \<Rightarrow> store \<Rightarrow> py_arg \<Rightarrow> py_arg \<Rightarrow> py_error + (fs \<times> store)" where
  "save_context json_dump f st input_data output_data =
     (case (input_data, output_data) of
        (TextDict inp, TextDict out) \<Rightarrow>
          if not_get inp ''input'' \<or> not_get out ''output''
          then Inl (ValueError
                 (''Los datos deben contener '' @ [CHR 0x27] @ ''input'' @ [CHR 0x27] @ '' y '' @
                  [CHR 0x27] @ ''output'' @ [CHR 0x27] @ '' no vac'' @ [CHR 0xED] @ ''os''))
          else (case memory_save_context st inp out of
                  Inl e \<Rightarrow> Inl e
                | Inr st' \<Rightarrow>
                    (case atomic_save json_dump f st' of
                       Inl e \<Rightarrow> Inl e
                     | Inr f' \<Rightarrow> Inr (f', st')))
      | _ \<Rightarrow> Inl (TypeError ''Los datos deben ser diccionarios''))"

text \<open>
  The call of \<^verbatim>\<open>app.py\<close> (lines 200 to 206) that records one turn: the question under
  \<^verbatim>\<open>"input"\<close>, the answer under \<^verbatim>\<open>"output"\<close>.
\<close>

definition record_turn ::
  "(json \<Rightarrow> string) \<Rightarrow> fs \<Rightarrow> store \<Rightarrow> string \<Rightarrow> string \<Rightarrow> py_error + (fs \<times> store)" where
  "record_turn json_dump f st q a =
     save_context json_dump f st (TextDict [(''input'', q)]) (TextDict [(''output'', a)])"

section \<open>Merging the history at startup (\<^verbatim>\<open>src/app.py\<close>)\<close>

text \<open>
  An entry of \<^verbatim>\<open>st.session_state.messages\<close> is a dict with the keys \<^verbatim>\<open>"role"\<close> and
  \<^verbatim>\<open>"content"\<close>. The content read from the file is whatever value the record holds.
\<close>

record ui_message =
  ui_role :: string
  ui_content :: json

text \<open>\<^verbatim>\<open>for msg in messages_data\<close>: what iterating over a Python value gives.\<close>

fun py_iter :: "json \<Rightarrow> py_error + json list" where
  "py_iter (JArr xs) = Inr xs"
| "py_iter (JObj kvs) = Inr (map (\<lambda>kv. JStr (fst kv)) kvs)"
| "py_iter (JStr s) = Inr (map (\<lambda>c. JStr [c]) s)"
| "py_iter _ = Inl (TypeError ''object is not iterable'')"

text \<open>
  Lines 67 to 75, the loop over the records of the file. It appends to the list in
  place, so when a turn raises the entries appended before it stay: the result is the
  list and the exception, if any.
\<close>

fun import_records :: "json list \<Rightarrow> ui_message list \<Rightarrow> ui_message list \<times> py_error option" where
  "import_records [] ms = (ms, None)"
| "import_records (JObj msg # data) ms =
     (case dict_get msg ''data'' (JObj []) of
        JObj d \<Rightarrow>
          (let c = dict_get d ''content'' (dict_get msg ''content'' (JStr []));
               r = (if dict_get msg ''type'' JNull = JStr ''human'' then ''user'' else ''assistant'')
           in if truthy c \<and> r \<noteq> []
              then import_records data (ms @ [\<lparr>ui_role = r, ui_content = c\<rparr>])
              else import_records data ms)
      | _ \<Rightarrow> (ms, Some AttributeError))"
| "import_records (_ # data) ms = import_records data ms"

text \<open>
  Lines 79 to 86, the loop over the messages of the memory. The value of
  \<^verbatim>\<open>isinstance(msg, HumanMessage)\<close> is the parameter \<open>isinstance_human\<close>; an exception
  of a turn is caught inside the loop and the turn adds nothing.
\<close>

fun import_memory ::
  "(message \<Rightarrow> py_error + bool) \<Rightarrow> message list \<Rightarrow> ui_message list \<Rightarrow> ui_message list" where
  "import_memory isinstance_human [] ms = ms"
| "import_memory isinstance_human (msg # langchain_messages) ms =
     (case isinstance_human msg of
        Inl e \<Rightarrow> import_memory isinstance_human langchain_messages ms
      | Inr h \<Rightarrow>
          (let c = content msg; r = (if h then ''user'' else ''assistant'')
           in if c \<noteq> [] \<and> \<not> list_ex (\<lambda>m. ui_content m = JStr c) ms
              then import_memory isinstance_human langchain_messages
                     (ms @ [\<lparr>ui_role = r, ui_content = JStr c\<rparr>])
              else import_memory isinstance_human langchain_messages ms))"

text \<open>
  \<^verbatim>\<open>app.py\<close> does not import \<^verbatim>\<open>HumanMessage\<close>: in its namespace the name is unbound and
  looking it up raises \<^verbatim>\<open>NameError\<close>.
\<close>

definition app_isinstance_human :: "message \<Rightarrow> py_error + bool" where
  "app_isinstance_human msg = Inl (NameError ''HumanMessage'')"

text \<open>
  Lines 63 to 75 of \<^verbatim>\<open>load_chat_history\<close>, the direct read of the store file: \<open>ms\<close> is
  \<^verbatim>\<open>st.session_state.messages\<close> at the call (empty at startup).
\<close>

definition import_file ::
  "(string \<Rightarrow> json option) \<Rightarrow> fs \<Rightarrow> ui_message list \<Rightarrow> ui_message list \<times> py_error option" where
  "import_file json_load f ms =
     (case f ''chat_memory.json'' of
        None \<Rightarrow> (ms, None)
      | Some bytes \<Rightarrow>
          (case json_load bytes of
             None \<Rightarrow> (ms, Some JSONDecodeError)
           | Some messages_data \<Rightarrow>
               (case py_iter messages_data of
                  Inl e \<Rightarrow> (ms, Some e)
                | Inr data \<Rightarrow> import_records data ms)))"

text \<open>
  \<^verbatim>\<open>load_chat_history\<close>: \<open>mem\<close> is the list of messages of the memory. An exception of
  the first part ends the function in the outer handler, before the second loop.
\<close>

definition load_chat_history ::
  "(message \<Rightarrow> py_error + bool) \<Rightarrow> (string \<Rightarrow> json option) \<Rightarrow> fs \<Rightarrow> message list \<Rightarrow>
   ui_message list \<Rightarrow> ui_message list" where
  "load_chat_history isinstance_human json_load f mem ms =
     (case import_file json_load f ms of
        (ms', Some e) \<Rightarrow> ms'
      | (ms', None) \<Rightarrow> import_memory isinstance_human mem ms')"

section \<open>The vector index (\<^verbatim>\<open>src/rag.py\<close>)\<close>

text \<open>
  \<open>'db\<close> is the index object (\<^verbatim>\<open>Chroma\<close>). Building it from a PDF and searching it are
  the library's work: the parameters \<open>build\<close> (the chunks' index and their number, or
  an exception) and \<open>similarity_search\<close>. The parameter \<open>index_len\<close> is the \<^verbatim>\<open>__len__\<close>
  of the index, the number of its entries.
\<close>

record 'db rag_system =
  vector_db :: "'db option"

definition rag_init :: "'db rag_system" where
  "rag_init = \<lparr>vector_db = None\<rparr>"

definition process_pdf ::
  "(string \<Rightarrow> py_error + 'db \<times> nat) \<Rightarrow> 'db rag_system \<Rightarrow> string \<Rightarrow>
   py_error + ('db rag_system \<times> nat)" where
  "process_pdf build st file_path =
     (case build file_path of
        Inl e \<Rightarrow> Inl e
      | Inr (db, n) \<Rightarrow> Inr (st\<lparr>vector_db := Some db\<rparr>, n))"

text \<open>
  Line 68, \<^verbatim>\<open>if not self.vector_db\<close>, is a truth test: it holds when the attribute is
  \<^verbatim>\<open>None\<close> and when it is an index of length 0.
\<close>

definition query ::
  "('db \<Rightarrow> nat) \<Rightarrow> ('db \<Rightarrow> string \<Rightarrow> int \<Rightarrow> py_error + string list) \<Rightarrow> 'db rag_system \<Rightarrow>
   string \<Rightarrow> int \<Rightarrow> py_error + string list" where
  "query index_len similarity_search st question k =
     (case vector_db st of
        None \<Rightarrow> Inl (ValueError ''Primero debes cargar un documento PDF.'')
      | Some db \<Rightarrow>
          if index_len db = 0 then Inl (ValueError ''Primero debes cargar un documento PDF.'')
          else similarity_search db question k)"

section \<open>Scenarios of the specification\<close>

text \<open>Save the conversation, then load the file with a fresh instance on the same path.\<close>

definition save_then_load ::
  "(string \<Rightarrow> json option) \<Rightarrow> (json \<Rightarrow> string) \<Rightarrow> fs \<Rightarrow> store \<Rightarrow> py_error + message list" where
  "save_then_load json_load json_dump f st =
     (case atomic_save json_dump f st of
        Inl e \<Rightarrow> Inl e
      | Inr f' \<Rightarrow>
          (case init json_load f' (path st) of
             Inl e \<Rightarrow> Inl e
           | Inr (f'', st'') \<Rightarrow> Inr (messages st'')))"

text \<open>
  Record one turn, then load the file with a fresh instance on the same path: the
  conversation in memory after the turn and the conversation of the fresh instance.
\<close>

definition turn_then_load ::
  "(string \<Rightarrow> json option) \<Rightarrow> (json \<Rightarrow> string) \<Rightarrow> fs \<Rightarrow> store \<Rightarrow> string \<Rightarrow> string \<Rightarrow>
   py_error + (message list \<times> message list)" where
  "turn_then_load json_load json_dump f st q a =
     (case record_turn json_dump f st q a of
        Inl e \<Rightarrow> Inl e
      | Inr (f', st') \<Rightarrow>
          (case init json_load f' (path st) of
             Inl e \<Rightarrow> Inl e
           | Inr (f'', st'') \<Rightarrow> Inr (messages st', messages st'')))"

text \<open>
  The record filtering of the specification, one entry at a time: a dict whose type tag
  is \<^verbatim>\<open>"human"\<close> or \<^verbatim>\<open>"ai"\<close> and whose text, under \<^verbatim>\<open>data.content\<close> or under
  \<^verbatim>\<open>content\<close>, is not empty or whitespace-only is a message of that role; any other
  entry gives nothing. The parameter \<open>norm\<close> is what becomes of the text: the identity
  for the record as it is written, \<open>strip\<close> for the trimmed text.
\<close>

definition record_text :: "(string \<times> json) list \<Rightarrow> string option" where
  "record_text item =
     (case map_of item ''data'' of
        Some (JObj d) \<Rightarrow>
          (case map_of d ''content'' of
             Some (JStr c) \<Rightarrow> Some c
           | Some _ \<Rightarrow> None
           | None \<Rightarrow> (case map_of item ''content'' of Some (JStr c) \<Rightarrow> Some c | _ \<Rightarrow> None))
      | Some _ \<Rightarrow> None
      | None \<Rightarrow> (case map_of item ''content'' of Some (JStr c) \<Rightarrow> Some c | _ \<Rightarrow> None))"

fun record_message :: "(string \<Rightarrow> string) \<Rightarrow> json \<Rightarrow> message option" where
  "record_message norm (JObj item) =
     (case record_text item of
        None \<Rightarrow> None
      | Some c \<Rightarrow>
          if strip c = [] then None
          else if map_of item ''type'' = Some (JStr ''human'') then Some (HumanMessage (norm c))
          else if map_of item ''type'' = Some (JStr ''ai'') then Some (AIMessage (norm c))
          else None)"
| "record_message norm _ = None"

text \<open>
  The entries the record filtering speaks of: a human or ai record with a text, empty
  or not, in one of the two shapes, or an entry that is not a dict.
\<close>

fun mixed_entry :: "json \<Rightarrow> bool" where
  "mixed_entry (JObj item) =
     (record_text item \<noteq> None \<and>
      (map_of item ''type'' = Some (JStr ''human'') \<or> map_of item ''type'' = Some (JStr ''ai'')))"
| "mixed_entry _ = True"

fun ai_tagged :: "json \<Rightarrow> bool" where
  "ai_tagged (JObj item) = (map_of item ''type'' = Some (JStr ''ai''))"
| "ai_tagged _ = False"

text \<open>The two shapes of a persisted record.\<close>

definition flat_record :: "string \<Rightarrow> string \<Rightarrow> json" where
  "flat_record t c = JObj [(''type'', JStr t), (''content'', JStr c)]"

definition nested_record :: "string \<Rightarrow> string \<Rightarrow> json" where
  "nested_record t c = JObj [(''type'', JStr t), (''data'', JObj [(''content'', JStr c)])]"

text \<open>
  What the direct read of the store file takes from one entry, when the turn of the loop
  does not raise: a dict whose content, under \<^verbatim>\<open>data.content\<close> or \<^verbatim>\<open>content\<close>, is true
  gives a message with that content, of role \<^verbatim>\<open>user\<close> for the tag \<^verbatim>\<open>"human"\<close> and
  \<^verbatim>\<open>assistant\<close> for any other; every other entry gives nothing. The turn raises only
  on a dict whose \<^verbatim>\<open>"data"\<close> is not a dict.
\<close>

fun file_message :: "json \<Rightarrow> ui_message option" where
  "file_message (JObj msg) =
     (case dict_get msg ''data'' (JObj []) of
        JObj d \<Rightarrow>
          (let c = dict_get d ''content'' (dict_get msg ''content'' (JStr []))
           in if truthy c
              then Some \<lparr>ui_role = (if dict_get msg ''type'' JNull = JStr ''human''
                                     then ''user'' else ''assistant''),
                         ui_content = c\<rparr>
              else None)
      | _ \<Rightarrow> None)"
| "file_message _ = None"

fun data_is_dict :: "json \<Rightarrow> bool" where
  "data_is_dict (JObj msg) = (case dict_get msg ''data'' (JObj []) of JObj d \<Rightarrow> True | _ \<Rightarrow> False)"
| "data_is_dict _ = True"

subsection \<open>A JSON writer and reader for the examples\<close>

text \<open>
  The theorems hold for any \<open>json_load\<close> and \<open>json_dump\<close>. The examples need a
  concrete pair: \<open>dumps\<close> writes compact JSON text, and \<open>loads_only j\<close> reads back the
  text of the one document \<open>j\<close> and fails on any other text.
\<close>

definition dumps_char :: "char \<Rightarrow> string" where
  "dumps_char c = (if c = CHR 0x22 \<or> c = CHR 0x5C then [CHR 0x5C, c] else [c])"

definition dumps_str :: "string \<Rightarrow> string" where
  "dumps_str s = CHR 0x22 # concat (map dumps_char s) @ [CHR 0x22]"

fun dumps :: "json \<Rightarrow> string" where
  "dumps JNull = ''null''"
| "dumps (JBool b) = (if b then ''true'' else ''false'')"
| "dumps (JInt i) = repr_int i"
| "dumps (JFloat r) = r"
| "dumps (JStr s) = dumps_str s"
| "dumps (JArr xs) = ''['' @ join_comma (map dumps xs) @ '']''"
| "dumps (JObj kvs) =
     ''{'' @ join_comma (map (\<lambda>kv. dumps_str (fst kv) @ '': '' @ dumps (snd kv)) kvs) @ ''}''"

definition loads_only :: "json \<Rightarrow> string \<Rightarrow> json option" where
  "loads_only j bytes = (if bytes = dumps j then Some j else None)"

subsection \<open>Notions used in the statements\<close>

text \<open>The characters between the quotes of the \<^verbatim>\<open>repr\<close> of a string.\<close>

definition repr_body :: "string \<Rightarrow> string" where
  "repr_body s = concat (map (repr_char (repr_quote s)) s)"

text \<open>The rendering of the fields of a dict, without the braces.\<close>

definition fields_str :: "(string \<times> json) list \<Rightarrow> string" where
  "fields_str kvs = join_comma (map (\<lambda>kv. repr_str (fst kv) @ '': '' @ py_str (snd kv)) kvs)"

text \<open>A text that is empty or whitespace-only.\<close>

definition blank :: "string \<Rightarrow> bool" where
  "blank s = (strip s = [])"

text \<open>
  A message that the file keeps as it is: its text is not empty, has no whitespace at
  either end, and, for an AI message, does not contain \<^verbatim>\<open>HumanMessage\<close>.
\<close>

definition faithful :: "message \<Rightarrow> bool" where
  "faithful m = (content m \<noteq> [] \<and> strip (content m) = content m \<and>
                 (role_of m = Assistant \<longrightarrow> \<not> py_in ''HumanMessage'' (content m)))"

text \<open>\<^verbatim>\<open>json.load\<close> reads back the document \<open>j\<close> from what \<^verbatim>\<open>json.dump\<close> writes for it.\<close>

definition reads_back :: "(string \<Rightarrow> json option) \<Rightarrow> (json \<Rightarrow> string) \<Rightarrow> json \<Rightarrow> bool" where
  "reads_back json_load json_dump j = (json_load (json_dump j) = Some j)"

section \<open>Lemmas on strings and renderings\<close>

lemma py_in_Nil [simp]: "py_in [] s"
  by (cases s) auto

lemma py_in_skip: "p \<noteq> [] \<Longrightarrow> hd p \<notin> set u \<Longrightarrow> py_in p (u @ v) = py_in p v"
proof (induction u)
  case Nil then show ?case by simp
next
  case (Cons a u)
  then obtain x p' where p: "p = x # p'" by (cases p) auto
  with Cons show ?case by (cases "u @ v") auto
qed

lemma startswith_sep: "q \<notin> set p \<Longrightarrow> startswith p (xs @ q # ys) = startswith p xs"
  by (induction p xs rule: startswith.induct) auto

lemma py_in_sep:
  "q \<notin> set p \<Longrightarrow> p \<noteq> [] \<Longrightarrow> py_in p (xs @ q # ys) = (py_in p xs \<or> py_in p ys)"
proof (induction xs)
  case Nil
  then obtain x p' where p: "p = x # p'" by (cases p) auto
  with Nil show ?case by auto
next
  case (Cons a xs)
  have "startswith p ((a # xs) @ q # ys) = startswith p (a # xs)"
    using startswith_sep [OF Cons.prems(1)] by blast
  with Cons show ?case by auto
qed

lemma py_in_wrap:
  assumes "q \<notin> set p" and "p \<noteq> []"
  shows "py_in p (A @ q # body @ q # B) = (py_in p A \<or> py_in p body \<or> py_in p B)"
proof -
  have "py_in p (A @ q # (body @ q # B)) = (py_in p A \<or> py_in p (body @ q # B))"
    using assms by (rule py_in_sep)
  also have "py_in p (body @ q # B) = (py_in p body \<or> py_in p B)"
    using assms by (rule py_in_sep)
  finally show ?thesis by simp
qed

lemma repr_str_body: "repr_str s = repr_quote s # repr_body s @ [repr_quote s]"
  by (simp add: repr_str_def repr_body_def Let_def)

lemma repr_quote_cases: "repr_quote s = CHR 0x27 \<or> repr_quote s = CHR 0x22"
  by (simp add: repr_quote_def)

lemmas repr_eval = repr_str_def repr_quote_def repr_char_def isprintable_def Let_def

lemma repr_keys:
  "repr_str ''type'' = CHR 0x27 # ''type'' @ [CHR 0x27]"
  "repr_str ''content'' = CHR 0x27 # ''content'' @ [CHR 0x27]"
  "repr_str ''data'' = CHR 0x27 # ''data'' @ [CHR 0x27]"
  "repr_str ''ai'' = CHR 0x27 # ''ai'' @ [CHR 0x27]"
  "repr_str ''human'' = CHR 0x27 # ''human'' @ [CHR 0x27]"
  by (simp_all add: repr_eval)

lemma py_in_flat_ai:
  assumes "p = ''HumanMessage'' \<or> p = ''AIMessage''"
  shows "py_in p (py_str (flat_record ''ai'' c)) = py_in p (repr_body c)"
proof -
  let ?A = "''{'' @ repr_str ''type'' @ '': '' @ repr_str ''ai'' @ '', '' @ repr_str ''content'' @ '': ''"
  have s: "py_str (flat_record ''ai'' c) = ?A @ repr_quote c # repr_body c @ repr_quote c # ''}''"
    by (simp add: flat_record_def repr_str_body [of c] del: py_in.simps)
  have q: "repr_quote c \<notin> set p" and ne: "p \<noteq> []"
    using assms repr_quote_cases [of c] by auto
  have A: "\<not> py_in p ?A" using assms by (auto simp: repr_keys)
  have B: "\<not> py_in p ''}''" using assms by auto
  show ?thesis unfolding s py_in_wrap [OF q ne] using A B by simp
qed

lemma py_in_nested_ai:
  assumes "p = ''HumanMessage'' \<or> p = ''AIMessage''"
  shows "py_in p (py_str (nested_record ''ai'' c)) = py_in p (repr_body c)"
proof -
  let ?A = "''{'' @ repr_str ''type'' @ '': '' @ repr_str ''ai'' @ '', '' @ repr_str ''data'' @ '': {''
            @ repr_str ''content'' @ '': ''"
  have s: "py_str (nested_record ''ai'' c) = ?A @ repr_quote c # repr_body c @ repr_quote c # ''}}''"
    by (simp add: nested_record_def repr_str_body [of c] del: py_in.simps)
  have q: "repr_quote c \<notin> set p" and ne: "p \<noteq> []"
    using assms repr_quote_cases [of c] by auto
  have A: "\<not> py_in p ?A" using assms by (auto simp: repr_keys)
  have B: "\<not> py_in p ''}}''" using assms by auto
  show ?thesis unfolding s py_in_wrap [OF q ne] using A B by simp
qed

lemma item_content_flat: "item_content [(''type'', JStr t), (''content'', JStr c)] = Inr (strip c)"
  by (simp add: item_content_def dict_get_def)

lemma item_content_nested:
  "item_content [(''type'', JStr t), (''data'', JObj [(''content'', JStr c)])] = Inr (strip c)"
  by (simp add: item_content_def dict_get_def)

lemma dropWhile_id_hd: "xs \<noteq> [] \<Longrightarrow> \<not> P (hd xs) \<Longrightarrow> dropWhile P xs = xs"
  by (cases xs) auto

lemma strip_Nil [simp]: "strip [] = []"
  by (simp add: strip_def)

lemma strip_fix:
  assumes "s \<noteq> []" and "\<not> isspace (hd s)" and "\<not> isspace (last s)"
  shows "strip s = s"
proof -
  have "dropWhile isspace s = s" using assms by (simp add: dropWhile_id_hd)
  moreover have "dropWhile isspace (rev s) = rev s"
    using assms by (simp add: dropWhile_id_hd hd_rev)
  ultimately show ?thesis by (simp add: strip_def)
qed

lemma strip_ends:
  assumes "strip s \<noteq> []"
  shows "\<not> isspace (hd (strip s)) \<and> \<not> isspace (last (strip s))"
proof -
  let ?u = "dropWhile isspace s"
  let ?v = "dropWhile isspace (rev ?u)"
  have v: "?v \<noteq> []" using assms by (simp add: strip_def)
  then have u: "?u \<noteq> []" by (cases "?u") auto
  have l: "\<not> isspace (hd ?v)" using v by (rule hd_dropWhile)
  have "last (strip s) = hd ?v" using v by (simp add: strip_def last_rev)
  with l have 1: "\<not> isspace (last (strip s))" by simp
  have "\<not> isspace (hd ?u)" using u by (rule hd_dropWhile)
  then have "\<not> isspace (last (rev ?u))" using u by (simp add: last_rev)
  have "\<exists>ws. rev ?u = ws @ ?v" by (metis takeWhile_dropWhile_id)
  then obtain ws where ws: "rev ?u = ws @ ?v" ..
  then have "?u = rev ?v @ rev ws" by (metis rev_append rev_rev_ident)
  then have "hd ?u = hd (rev ?v)" using v by (metis hd_append2 rev_is_Nil_conv)
  with \<open>\<not> isspace (hd ?u)\<close> have 2: "\<not> isspace (hd (strip s))" by (simp add: strip_def)
  from 1 2 show ?thesis by simp
qed

lemma strip_strip [simp]: "strip (strip s) = strip s"
proof (cases "strip s = []")
  case True then show ?thesis by simp
next
  case False
  then show ?thesis using strip_ends [OF False] by (intro strip_fix) auto
qed

lemma hex_digit_not_H:
  assumes "n < 16"
  shows "hex_digit n \<noteq> CHR ''H''"
proof
  assume "hex_digit n = CHR ''H''"
  then have "(of_char (hex_digit n) :: nat) = 72" by simp
  then show False using assms by (simp add: hex_digit_def split: if_splits)
qed

lemma of_char_div16: "(of_char (c::char) :: nat) div 16 < 16"
proof -
  have "(of_char c :: nat) < 16 * 16" using nat_of_char_less_256 [of c] by simp
  then show ?thesis by (simp only: div_less_iff_less_mult [symmetric] zero_less_numeral)
qed

lemma repr_char_cases:
  assumes "q = CHR 0x27 \<or> q = CHR 0x22"
  shows "repr_char q c = [c] \<and> c \<noteq> CHR 0x5C \<or>
         (\<exists>t. repr_char q c = CHR 0x5C # t \<and> CHR ''H'' \<notin> set t)"
  using assms hex_digit_not_H [OF of_char_div16 [of c]]
    hex_digit_not_H [of "(of_char c :: nat) mod 16"]
  by (auto simp: repr_char_def)

lemma startswith_repr:
  assumes q: "q = CHR 0x27 \<or> q = CHR 0x22"
  shows "CHR 0x5C \<notin> set p \<Longrightarrow> startswith p (concat (map (repr_char q) s)) \<Longrightarrow> startswith p s"
proof (induction p s rule: startswith.induct)
  case (1 s) then show ?case by simp
next
  case (2 x p) then show ?case by simp
next
  case (3 x p y s)
  from repr_char_cases [OF q, of y] show ?case
  proof
    assume "repr_char q y = [y] \<and> y \<noteq> CHR 0x5C"
    with 3 show ?thesis by auto
  next
    assume "\<exists>t. repr_char q y = CHR 0x5C # t \<and> CHR ''H'' \<notin> set t"
    with 3 show ?thesis by auto
  qed
qed

lemma py_in_repr:
  assumes q: "q = CHR 0x27 \<or> q = CHR 0x22"
    and p: "p = CHR ''H'' # p'" "CHR 0x5C \<notin> set p"
  shows "py_in p (concat (map (repr_char q) s)) \<Longrightarrow> py_in p s"
proof (induction s)
  case Nil then show ?case using p by simp
next
  case (Cons c s)
  let ?r = "concat (map (repr_char q) s)"
  from repr_char_cases [OF q, of c] show ?case
  proof
    assume a: "repr_char q c = [c] \<and> c \<noteq> CHR 0x5C"
    with Cons.prems have "startswith p (c # ?r) \<or> py_in p ?r" by simp
    then show ?thesis
    proof
      assume "startswith p (c # ?r)"
      with a have "startswith p (concat (map (repr_char q) (c # s)))" by simp
      then have "startswith p (c # s)" using startswith_repr [OF q p(2)] by blast
      then show ?thesis by simp
    next
      assume "py_in p ?r"
      then show ?thesis using Cons.IH by simp
    qed
  next
    assume "\<exists>t. repr_char q c = CHR 0x5C # t \<and> CHR ''H'' \<notin> set t"
    then obtain t where t: "repr_char q c = CHR 0x5C # t" "CHR ''H'' \<notin> set t" by blast
    have "py_in p ((CHR 0x5C # t) @ ?r) = py_in p ?r"
      using t p by (intro py_in_skip) auto
    with Cons.prems t have "py_in p ?r" by simp
    then show ?thesis using Cons.IH by simp
  qed
qed

lemma py_in_repr_body: "py_in ''HumanMessage'' (repr_body c) \<Longrightarrow> py_in ''HumanMessage'' c"
  unfolding repr_body_def
  by (rule py_in_repr [OF repr_quote_cases, of "''HumanMessage''" "''umanMessage''"]) auto

section \<open>Lemmas on the loop of the loader\<close>

lemma join_comma_Cons: "ys \<noteq> [] \<Longrightarrow> join_comma (x # ys) = x @ '', '' @ join_comma ys"
  by (cases ys) auto

lemma py_str_ai:
  "py_str (message_to_dict (AIMessage c)) =
     (''{'' @ repr_str ''type'' @ '': '' @ repr_str ''ai'' @ '', '' @ repr_str ''data'' @ '': {''
        @ repr_str ''content'' @ '': '') @
     repr_quote c # repr_body c @ repr_quote c # ('', '' @ fields_str ai_fields @ ''}}'')"
proof -
  have "ai_fields \<noteq> []" by (simp add: ai_fields_def)
  then show ?thesis
    by (simp add: join_comma_Cons fields_str_def repr_str_body [of c])
qed

lemma not_in_ai_fields: "\<not> py_in ''HumanMessage'' ('', '' @ fields_str ai_fields @ ''}}'')"
  by (simp add: fields_str_def ai_fields_def repr_eval)

lemma py_in_ai_record:
  "py_in ''HumanMessage'' (py_str (message_to_dict (AIMessage c))) = py_in ''HumanMessage'' (repr_body c)"
proof -
  have q: "repr_quote c \<notin> set ''HumanMessage''" using repr_quote_cases [of c] by auto
  have A: "\<not> py_in ''HumanMessage'' (''{'' @ repr_str ''type'' @ '': '' @ repr_str ''ai'' @ '', '' @ repr_str ''data'' @ '': {''
        @ repr_str ''content'' @ '': '')" by (simp add: repr_keys)
  show ?thesis
    unfolding py_str_ai py_in_wrap [OF q, simplified] using A not_in_ai_fields by simp
qed

lemma item_content_record:
  "item_content [(''type'', JStr t), (''data'', JObj ((''content'', JStr c) # kvs))] = Inr (strip c)"
  by (simp add: item_content_def dict_get_def)

lemma validate_item_human:
  "validate_item (message_to_dict (HumanMessage c)) =
     (if strip c = [] then Inr None else Inr (Some (HumanMessage (strip c))))"
  by (simp add: item_content_record dict_get_def Let_def del: py_str.simps py_in.simps)

lemma validate_item_ai:
  "validate_item (message_to_dict (AIMessage c)) =
     (if strip c = [] then Inr None
      else if py_in ''HumanMessage'' (repr_body c) then Inr (Some (HumanMessage (strip c)))
      else Inr (Some (AIMessage (strip c))))"
  using py_in_ai_record [of c]
  by (simp add: item_content_record dict_get_def Let_def del: py_str.simps py_in.simps)

lemma validate_item_faithful:
  "faithful m \<Longrightarrow> validate_item (message_to_dict m) = Inr (Some m)"
  using py_in_repr_body [of "content m"]
  by (cases m) (auto simp: faithful_def validate_item_human validate_item_ai
      simp del: validate_item.simps message_to_dict.simps py_in.simps)

lemma validate_item_total: "\<exists>r. validate_item (message_to_dict m) = Inr r"
  by (cases m) (simp_all add: validate_item_human validate_item_ai
      del: validate_item.simps message_to_dict.simps py_in.simps)

lemma validate_items_append:
  "validate_items (xs @ ys) acc =
     (case validate_items xs acc of Inl e \<Rightarrow> Inl e | Inr acc' \<Rightarrow> validate_items ys acc')"
  by (induction xs arbitrary: acc) (auto split: sum.splits option.splits simp del: validate_item.simps)

lemma validate_items_acc:
  "validate_items xs acc = (case validate_items xs [] of Inl e \<Rightarrow> Inl e | Inr r \<Rightarrow> Inr (acc @ r))"
proof (induction xs arbitrary: acc)
  case Nil then show ?case by simp
next
  case (Cons x xs)
  show ?case
    using Cons.IH [of acc] Cons.IH [of "acc @ [_]"] Cons.IH [of "[_]"]
    by (auto split: sum.splits option.splits simp del: validate_item.simps)
qed

lemma validate_items_faithful:
  "\<forall>m\<in>set ms. faithful m \<Longrightarrow> validate_items (map message_to_dict ms) acc = Inr (acc @ ms)"
  by (induction ms arbitrary: acc)
     (auto simp: validate_item_faithful simp del: validate_item.simps message_to_dict.simps)

lemma validate_items_records_total:
  "\<exists>r. validate_items (map message_to_dict ms) acc = Inr r"
proof (induction ms arbitrary: acc)
  case Nil then show ?case by simp
next
  case (Cons m ms)
  obtain r where r: "validate_item (message_to_dict m) = Inr r"
    using validate_item_total by blast
  show ?case using Cons.IH r
    by (cases r) (auto simp del: validate_item.simps message_to_dict.simps)
qed

section \<open>Lemmas on saving and loading again\<close>

lemma atomic_save_eq:
  "atomic_save json_dump f st =
     Inr ((f(path st @ ''.tmp'' := None))(path st \<mapsto> json_dump (JArr (save_records st))))"
proof -
  have ne: "path st @ ''.tmp'' \<noteq> path st" by simp
  show ?thesis
    using ne
    by (auto simp: atomic_save_def write_file_def exists_path_def os_remove_def os_rename_def
        Let_def fun_upd_twist intro!: ext)
qed

text \<open>A save that runs to its end leaves what the stop after the rename leaves.\<close>

lemma atomic_save_completed:
  "atomic_save json_dump f st = Inr (atomic_save_stopped json_dump AfterRename f st)"
proof -
  have ne: "path st @ ''.tmp'' \<noteq> path st"
    by simp
  show ?thesis
    using ne
    by (auto simp: atomic_save_eq atomic_save_stopped_def write_file_def exists_path_def
        Let_def fun_upd_twist intro!: ext)
qed

lemma init_after_save:
  assumes "reads_back json_load json_dump (JArr (save_records st))"
    and "atomic_save json_dump f st = Inr f'"
  shows "init json_load f' (path st) =
           (case validate_items (save_records st) [] of
              Inl e \<Rightarrow> Inr (backup_and_reset f' \<lparr>path = path st, messages = []\<rparr>)
            | Inr r \<Rightarrow> Inr (f', \<lparr>path = path st, messages = r\<rparr>))"
proof -
  have f': "f' (path st) = Some (json_dump (JArr (save_records st)))"
    using assms(2) by (auto simp: atomic_save_eq)
  have "read_messages json_load (json_dump (JArr (save_records st))) = validate_items (save_records st) []"
    using assms(1) by (simp add: read_messages_def reads_back_def)
  then show ?thesis using f'
    by (auto simp: init_def verify_and_load_def split: sum.splits)
qed

lemma save_records_faithful:
  "\<forall>m\<in>set ms. faithful m \<Longrightarrow> save_records \<lparr>path = p, messages = ms\<rparr> = map message_to_dict ms"
proof -
  assume a: "\<forall>m\<in>set ms. faithful m"
  then have "filter (\<lambda>m. content m \<noteq> []) ms = ms" by (auto simp: faithful_def filter_id_conv)
  then show ?thesis by (simp add: save_records_def)
qed

lemma strip_hi: "strip '' hi'' = ''hi''"
  by (simp add: strip_def isspace_def)

lemma backup_and_reset_Some:
  "f (path st) = Some bytes \<Longrightarrow>
   backup_and_reset f st = ((f(path st := None))(path st @ ''.bak'' \<mapsto> bytes), st\<lparr>messages := []\<rparr>)"
  by (simp add: backup_and_reset_def exists_path_def os_rename_def)

lemma record_turn_eq:
  assumes "q \<noteq> []" and "a \<noteq> []"
  shows "record_turn json_dump f st q a =
           Inr ((f(path st @ ''.tmp'' := None))
                  (path st \<mapsto> json_dump (JArr (save_records
                     (st\<lparr>messages := messages st @ [HumanMessage q, AIMessage a]\<rparr>)))),
                st\<lparr>messages := messages st @ [HumanMessage q, AIMessage a]\<rparr>)"
  using assms
  by (simp add: record_turn_def save_context_def not_get_def memory_save_context_def
      atomic_save_eq)

lemma record_turn_Inr:
  assumes "record_turn json_dump f st q a = Inr (f', st')"
  shows "q \<noteq> [] \<and> a \<noteq> []"
  using assms
  by (auto simp: record_turn_def save_context_def not_get_def split: if_splits)

lemma validate_item_not_blank:
  "validate_item e = Inr (Some m) \<Longrightarrow> \<not> blank (content m)"
proof (cases e)
  case (JObj item)
  assume a: "validate_item e = Inr (Some m)"
  show ?thesis
  proof (cases "item_content item")
    case (Inl x) with a JObj show ?thesis by simp
  next
    case (Inr c)
    then obtain c0 where c: "c = strip c0"
      by (auto simp: item_content_def split: json.splits)
    with a JObj Inr show ?thesis
      by (auto simp: blank_def Let_def simp del: py_str.simps py_in.simps split: if_splits)
  qed
qed simp_all

lemma validate_items_not_blank:
  "validate_items data acc = Inr r \<Longrightarrow> \<forall>m\<in>set acc. \<not> blank (content m) \<Longrightarrow>
   \<forall>m\<in>set r. \<not> blank (content m)"
proof (induction data arbitrary: acc)
  case Nil then show ?case by simp
next
  case (Cons e data)
  show ?case
  proof (cases "validate_item e")
    case (Inl x) with Cons.prems show ?thesis by simp
  next
    case (Inr o1)
    show ?thesis
    proof (cases o1)
      case None
      with Inr Cons show ?thesis by simp
    next
      case (Some m)
      with Inr have "\<not> blank (content m)" by (simp add: validate_item_not_blank)
      with Cons.prems Inr Some show ?thesis
        by (intro Cons.IH [of "acc @ [m]"]) auto
    qed
  qed
qed

lemma item_content_record_text:
  "record_text item = Some c \<Longrightarrow> item_content item = Inr (strip c)"
  by (auto simp: record_text_def item_content_def dict_get_def
      split: option.splits json.splits)

lemma validate_item_mixed:
  assumes "mixed_entry e" and "ai_tagged e \<longrightarrow> \<not> py_in ''HumanMessage'' (py_str e)"
  shows "validate_item e = Inr (record_message strip e)"
proof (cases e)
  case (JObj item)
  with assms(1) obtain c where c: "record_text item = Some c" by auto
  from assms(1) JObj have t: "map_of item ''type'' = Some (JStr ''human'') \<or> map_of item ''type'' = Some (JStr ''ai'')"
    by simp
  show ?thesis
    using t assms(2) JObj c item_content_record_text [OF c]
    by (auto simp: dict_get_def Let_def simp del: py_str.simps py_in.simps)
qed simp_all

lemma validate_items_mixed:
  assumes "\<forall>e\<in>set data. mixed_entry e"
    and "\<forall>e\<in>set data. ai_tagged e \<longrightarrow> \<not> py_in ''HumanMessage'' (py_str e)"
  shows "validate_items data acc = Inr (acc @ List.map_filter (record_message strip) data)"
  using assms
proof (induction data arbitrary: acc)
  case Nil then show ?case by (simp add: List.map_filter_simps)
next
  case (Cons e data)
  have "validate_item e = Inr (record_message strip e)"
    using Cons.prems by (intro validate_item_mixed) auto
  then show ?case using Cons
    by (cases "record_message strip e") (auto simp: List.map_filter_simps simp del: validate_item.simps)
qed

lemma mixed_data_loaded:
  "validate_items [flat_record ''human'' '' hi '', JInt 7, nested_record ''ai'' [], nested_record ''ai'' ''ok''] []
     = Inr [HumanMessage ''hi'', AIMessage ''ok'']"
proof -
  have s: "strip '' hi '' = ''hi''" "strip ''ok'' = ''ok''" by (simp_all add: strip_def isspace_def)
  have n: "\<not> py_in ''HumanMessage'' (py_str (nested_record ''ai'' ''ok''))"
    by (simp add: py_in_nested_ai repr_body_def repr_eval)
  show ?thesis
    using s n
    by (simp add: flat_record_def nested_record_def item_content_flat item_content_nested
        dict_get_def Let_def del: py_str.simps py_in.simps)
qed

section \<open>Lemmas on the merge of the histories\<close>

lemma import_memory_added:
  "\<exists>added. import_memory h mem ms = ms @ added \<and> distinct (map ui_content added) \<and>
     (\<forall>m\<in>set added. ui_content m \<notin> ui_content ` set ms \<and>
        (\<exists>msg\<in>set mem. ui_content m = JStr (content msg)))"
proof (induction mem arbitrary: ms)
  case Nil
  then show ?case by simp
next
  case (Cons msg mem)
  show ?case
  proof (cases "h msg")
    case (Inl e)
    with Cons.IH [of ms] show ?thesis by auto
  next
    case (Inr b)
    let ?new = "\<lparr>ui_role = (if b then ''user'' else ''assistant''), ui_content = JStr (content msg)\<rparr>"
    show ?thesis
    proof (cases "content msg \<noteq> [] \<and> \<not> list_ex (\<lambda>m. ui_content m = JStr (content msg)) ms")
      case False
      with Inr Cons.IH [of ms] show ?thesis by (auto simp: Let_def)
    next
      case True
      then have fresh: "JStr (content msg) \<notin> ui_content ` set ms" by (auto simp: list_ex_iff)
      from Cons.IH [of "ms @ [?new]"] obtain added where
        a: "import_memory h mem (ms @ [?new]) = (ms @ [?new]) @ added"
        and d: "distinct (map ui_content added)"
        and n: "\<forall>m\<in>set added. ui_content m \<notin> ui_content ` set (ms @ [?new]) \<and>
                  (\<exists>msg\<in>set mem. ui_content m = JStr (content msg))"
        by blast
      have "import_memory h (msg # mem) ms = ms @ (?new # added)"
        using Inr True a by (simp add: Let_def)
      moreover have "distinct (map ui_content (?new # added))" using d n by auto
      moreover have "\<forall>m\<in>set (?new # added). ui_content m \<notin> ui_content ` set ms \<and>
                       (\<exists>x\<in>set (msg # mem). ui_content m = JStr (content x))"
        using n fresh by auto
      ultimately show ?thesis by blast
    qed
  qed
qed

lemma import_records_exact:
  assumes "\<forall>e\<in>set data. data_is_dict e"
  shows "import_records data ms = (ms @ List.map_filter file_message data, None)"
  using assms
proof (induction data arbitrary: ms)
  case Nil
  then show ?case
    by (simp add: List.map_filter_simps)
next
  case (Cons e data)
  then have IH: "\<And>ms. import_records data ms = (ms @ List.map_filter file_message data, None)"
    by simp
  show ?case
  proof (cases e)
    case (JObj msg)
    with Cons.prems obtain d where d: "dict_get msg ''data'' (JObj []) = JObj d"
      by (auto split: json.splits)
    show ?thesis
      using JObj d IH
      by (simp add: List.map_filter_simps Let_def)
  qed (simp_all add: IH List.map_filter_simps)
qed

lemma distinct_added:
  assumes "distinct pre" and "distinct (map ui_content added)"
    and "\<forall>m\<in>set added. ui_content m \<notin> ui_content ` set pre"
  shows "distinct (pre @ added)"
proof -
  have "distinct added"
    using assms(2) by (simp add: distinct_map)
  moreover have "set pre \<inter> set added = {}"
    using assms(3) by auto
  ultimately show ?thesis
    using assms(1) by simp
qed

section \<open>Saving\<close>

text \<open>
  Claim C1. The store file holds \<^verbatim>\<open>[]\<close> and the conversation has one message. When
  the save stops after \<^verbatim>\<open>os.remove\<close> (line 144) and before \<^verbatim>\<open>os.rename\<close> (line 145),
  there is no file at the store path: neither the old content nor the new one.
\<close>

theorem save_gap:
  "atomic_save_stopped dumps AfterRemove
     (Map.empty(''chat_memory.json'' \<mapsto> ''[]''))
     \<lparr>path = ''chat_memory.json'', messages = [HumanMessage ''hi'']\<rparr>
     ''chat_memory.json'' = None"
  by (simp add: atomic_save_stopped_def write_file_def exists_path_def Let_def del: dumps.simps)

section \<open>Loading the store file\<close>

subsection \<open>Soft failure\<close>

text \<open>
  Claim C2. Loading never raises. A missing store file gives the empty conversation and
  leaves the file system as it is. A store file that \<^verbatim>\<open>json.load\<close> rejects, or whose
  reading fails in any other way, gives the empty conversation too, and the file is moved
  to the \<^verbatim>\<open>.bak\<close> path with its bytes, in place of whatever was there.
\<close>

theorem load_fails_soft:
  "(f p = None \<longrightarrow> init json_load f p = Inr (f, \<lparr>path = p, messages = []\<rparr>)) \<and>
   (f p = Some bytes \<and> (json_load bytes = None \<or> (\<exists>e. read_messages json_load bytes = Inl e)) \<longrightarrow>
      init json_load f p
        = Inr ((f(p := None))(p @ ''.bak'' \<mapsto> bytes), \<lparr>path = p, messages = []\<rparr>))"
proof (intro conjI impI)
  assume "f p = None"
  then show "init json_load f p = Inr (f, \<lparr>path = p, messages = []\<rparr>)"
    by (simp add: init_def verify_and_load_def)
next
  assume a: "f p = Some bytes \<and>
             (json_load bytes = None \<or> (\<exists>e. read_messages json_load bytes = Inl e))"
  then obtain e where e: "read_messages json_load bytes = Inl e"
    by (auto simp: read_messages_def)
  from a have fp: "f (path \<lparr>path = p, messages = []\<rparr>) = Some bytes" by simp
  show "init json_load f p
        = Inr ((f(p := None))(p @ ''.bak'' \<mapsto> bytes), \<lparr>path = p, messages = []\<rparr>)"
    using e fp backup_and_reset_Some [of f "\<lparr>path = p, messages = []\<rparr>" bytes]
    by (simp add: init_def verify_and_load_def)
qed

theorem load_fails_soft_witness:
  "init (loads_only (JArr [])) (Map.empty(''m.json'' \<mapsto> ''{not json'', ''m.json.bak'' \<mapsto> ''old''))
      ''m.json''
     = Inr (Map.empty(''m.json.bak'' \<mapsto> ''{not json''), \<lparr>path = ''m.json'', messages = []\<rparr>) \<and>
   init (loads_only (JArr [])) Map.empty ''m.json''
     = Inr (Map.empty, \<lparr>path = ''m.json'', messages = []\<rparr>)"
proof -
  let ?f = "Map.empty(''m.json'' \<mapsto> ''{not json'', ''m.json.bak'' \<mapsto> ''old'') :: fs"
  have n: "loads_only (JArr []) ''{not json'' = None" by (simp add: loads_only_def)
  have e: "?f ''m.json'' = Some ''{not json''" by simp
  have u: "(?f(''m.json'' := None))(''m.json.bak'' \<mapsto> ''{not json'')
           = (Map.empty(''m.json.bak'' \<mapsto> ''{not json'') :: fs)" by (rule ext) simp
  show ?thesis
    using load_fails_soft [of ?f "''m.json''" "loads_only (JArr [])" "''{not json''"]
      load_fails_soft [of "Map.empty" "''m.json''" "loads_only (JArr [])" "''{not json''"] n e u
    by simp
qed

subsection \<open>Record filtering\<close>

text \<open>
  Claim C3, as stated, at an array that mixes a human record with the text \<^verbatim>\<open>" hi "\<close>,
  a number, an ai record with an empty text and an ai record with the text
  \<^verbatim>\<open>"ok"\<close>: the loader gives the human message \<^verbatim>\<open>"hi"\<close>, and not the text of the
  record, then the AI message \<^verbatim>\<open>"ok"\<close>.
\<close>

theorem filtering_trims_counterexample:
  "validate_items [flat_record ''human'' '' hi '', JInt 7, nested_record ''ai'' [], nested_record ''ai'' ''ok''] []
     = Inr [HumanMessage ''hi'', AIMessage ''ok''] \<and>
   List.map_filter (record_message id)
     [flat_record ''human'' '' hi '', JInt 7, nested_record ''ai'' [], nested_record ''ai'' ''ok'']
     = [HumanMessage '' hi '', AIMessage ''ok'']"
proof -
  have s: "strip '' hi '' = ''hi''" "strip ''ok'' = ''ok''" by (simp_all add: strip_def isspace_def)
  have "List.map_filter (record_message id)
     [flat_record ''human'' '' hi '', JInt 7, nested_record ''ai'' [], nested_record ''ai'' ''ok'']
     = [HumanMessage '' hi '', AIMessage ''ok'']"
    using s by (simp add: List.map_filter_simps flat_record_def nested_record_def record_text_def)
  with mixed_data_loaded show ?thesis by simp
qed

text \<open>
  Claim C3, amended. On an array of human and ai records, in either shape and with any
  text, and of entries that are not dicts, the loader never fails and gives, in the
  order of the array, one message for each record whose text is not blank: its role is
  the one of the type tag and its content is the text without the whitespace at its
  ends. Records with a blank text and entries that are not dicts are dropped. This is
  stated for arrays in which the rendering of no ai record contains \<^verbatim>\<open>HumanMessage\<close>.
\<close>

theorem record_filtering:
  assumes "\<forall>e\<in>set data. mixed_entry e"
    and "\<forall>e\<in>set data. ai_tagged e \<longrightarrow> \<not> py_in ''HumanMessage'' (py_str e)"
  shows "validate_items data [] = Inr (List.map_filter (record_message strip) data)"
  using validate_items_mixed [OF assms, of "[]"] by simp

theorem record_filtering_witness:
  "mixed_entry (flat_record ''human'' '' hi '') \<and> mixed_entry (JInt 7) \<and>
   mixed_entry (nested_record ''ai'' []) \<and> mixed_entry (nested_record ''ai'' ''ok'') \<and>
   \<not> py_in ''HumanMessage'' (py_str (nested_record ''ai'' [])) \<and>
   \<not> py_in ''HumanMessage'' (py_str (nested_record ''ai'' ''ok'')) \<and>
   validate_items [flat_record ''human'' '' hi '', JInt 7, nested_record ''ai'' [], nested_record ''ai'' ''ok''] []
     = Inr [HumanMessage ''hi'', AIMessage ''ok'']"
proof -
  let ?data = "[flat_record ''human'' '' hi '', JInt 7, nested_record ''ai'' [], nested_record ''ai'' ''ok'']"
  have m: "\<forall>e\<in>set ?data. mixed_entry e"
    by (simp add: flat_record_def nested_record_def record_text_def)
  have h: "\<not> ai_tagged (flat_record ''human'' '' hi '')" by (simp add: flat_record_def)
  have n1: "\<not> py_in ''HumanMessage'' (py_str (nested_record ''ai'' []))"
    by (simp add: py_in_nested_ai repr_body_def)
  have n2: "\<not> py_in ''HumanMessage'' (py_str (nested_record ''ai'' ''ok''))"
    by (simp add: py_in_nested_ai repr_body_def repr_eval)
  have n: "\<forall>e\<in>set ?data. ai_tagged e \<longrightarrow> \<not> py_in ''HumanMessage'' (py_str e)"
    using h n1 n2 by (simp del: py_str.simps py_in.simps)
  have s: "strip '' hi '' = ''hi''" "strip ''ok'' = ''ok''" by (simp_all add: strip_def isspace_def)
  have r: "List.map_filter (record_message strip) ?data = [HumanMessage ''hi'', AIMessage ''ok'']"
    using s by (simp add: List.map_filter_simps flat_record_def nested_record_def record_text_def)
  show ?thesis using record_filtering [OF m n] m n1 n2 r by simp
qed

subsection \<open>The two shapes of a record\<close>

text \<open>
  Claim C8. For the type tags \<^verbatim>\<open>"human"\<close> and \<^verbatim>\<open>"ai"\<close> and every text, the loader does
  the same with the flat record and with the nested record: the same message, of the same
  role and content, or nothing when the trimmed text is empty. A text that is not blank
  gives one message, whose content is the trimmed text.
\<close>

theorem legacy_shape:
  assumes "t = ''human'' \<or> t = ''ai''"
  shows "validate_item (flat_record t c) = validate_item (nested_record t c) \<and>
         validate_items [flat_record t c] [] = validate_items [nested_record t c] [] \<and>
         (strip c \<noteq> [] \<longrightarrow>
            (\<exists>m. validate_items [flat_record t c] [] = Inr [m] \<and> content m = strip c))"
proof -
  have eq: "validate_item (flat_record t c) = validate_item (nested_record t c)"
  proof (cases "t = ''human''")
    case True
    then show ?thesis
      by (simp add: flat_record_def nested_record_def item_content_flat item_content_nested
          dict_get_def Let_def del: py_str.simps py_in.simps)
  next
    case False
    with assms have t: "t = ''ai''" by simp
    have f: "validate_item (flat_record ''ai'' c) =
             (if strip c = [] then Inr None
              else if py_in ''HumanMessage'' (py_str (flat_record ''ai'' c))
                then Inr (Some (HumanMessage (strip c)))
              else Inr (Some (AIMessage (strip c))))"
      by (simp add: flat_record_def item_content_flat dict_get_def Let_def del: py_str.simps py_in.simps)
    have n: "validate_item (nested_record ''ai'' c) =
             (if strip c = [] then Inr None
              else if py_in ''HumanMessage'' (py_str (nested_record ''ai'' c))
                then Inr (Some (HumanMessage (strip c)))
              else Inr (Some (AIMessage (strip c))))"
      by (simp add: nested_record_def item_content_nested dict_get_def Let_def del: py_str.simps py_in.simps)
    show ?thesis unfolding t f n py_in_flat_ai [of "''HumanMessage''", simplified]
        py_in_nested_ai [of "''HumanMessage''", simplified] ..
  qed
  have ex: "strip c \<noteq> [] \<Longrightarrow> \<exists>m. validate_item (flat_record t c) = Inr (Some m) \<and> content m = strip c"
    using assms
    by (auto simp add: flat_record_def item_content_flat dict_get_def Let_def simp del: py_str.simps py_in.simps)
  show ?thesis using eq ex by (auto simp del: validate_item.simps)
qed

theorem legacy_shape_witness:
  "validate_item (flat_record ''human'' ''hi'') = validate_item (nested_record ''human'' ''hi'') \<and>
   validate_items [flat_record ''human'' ''hi''] [] = Inr [HumanMessage ''hi''] \<and>
   validate_items [nested_record ''human'' ''hi''] [] = Inr [HumanMessage ''hi'']"
proof -
  have s: "strip ''hi'' = ''hi''" by (simp add: strip_def isspace_def)
  have v: "validate_items [flat_record ''human'' ''hi''] [] = Inr [HumanMessage ''hi'']"
    using s by (simp add: flat_record_def item_content_flat dict_get_def Let_def
        del: py_str.simps py_in.simps)
  show ?thesis using legacy_shape [of "''human''" "''hi''"] v by simp
qed

subsection \<open>Roles from the rendering of the record\<close>

text \<open>
  Claim C10. A dict whose extracted content is not empty and whose type tag is neither
  \<^verbatim>\<open>"human"\<close> nor \<^verbatim>\<open>"ai"\<close> is loaded as a human message when its rendering
  \<^verbatim>\<open>str(item)\<close> contains \<^verbatim>\<open>HumanMessage\<close>, otherwise as an AI message when the rendering
  contains \<^verbatim>\<open>AIMessage\<close>, and is dropped otherwise. The rendering includes the content,
  so the role can depend on the text of the message.
\<close>

theorem heuristic_role:
  assumes "item_content item = Inr c" and "c \<noteq> []"
    and "dict_get item ''type'' (JStr []) \<noteq> JStr ''human''"
    and "dict_get item ''type'' (JStr []) \<noteq> JStr ''ai''"
  shows "validate_item (JObj item) =
           (if py_in ''HumanMessage'' (py_str (JObj item)) then Inr (Some (HumanMessage c))
            else if py_in ''AIMessage'' (py_str (JObj item)) then Inr (Some (AIMessage c))
            else Inr None)"
  using assms by (simp del: py_str.simps py_in.simps)

theorem heuristic_role_witness:
  "item_content [(''type'', JStr ''system''), (''content'', JStr ''HumanMessage'')] = Inr ''HumanMessage'' \<and>
   validate_item (JObj [(''type'', JStr ''system''), (''content'', JStr ''HumanMessage'')])
     = Inr (Some (HumanMessage ''HumanMessage'')) \<and>
   item_content [(''type'', JStr ''system''), (''content'', JStr ''AIMessage'')] = Inr ''AIMessage'' \<and>
   validate_item (JObj [(''type'', JStr ''system''), (''content'', JStr ''AIMessage'')])
     = Inr (Some (AIMessage ''AIMessage''))"
proof -
  let ?h = "[(''type'', JStr ''system''), (''content'', JStr ''HumanMessage'')]"
  let ?a = "[(''type'', JStr ''system''), (''content'', JStr ''AIMessage'')]"
  have h1: "item_content ?h = Inr ''HumanMessage''" by code_simp
  have h2: "dict_get ?h ''type'' (JStr []) \<noteq> JStr ''human''" by code_simp
  have h3: "dict_get ?h ''type'' (JStr []) \<noteq> JStr ''ai''" by code_simp
  have h4: "py_in ''HumanMessage'' (py_str (JObj ?h))" by code_simp
  have a1: "item_content ?a = Inr ''AIMessage''" by code_simp
  have a2: "dict_get ?a ''type'' (JStr []) \<noteq> JStr ''human''" by code_simp
  have a3: "dict_get ?a ''type'' (JStr []) \<noteq> JStr ''ai''" by code_simp
  have a4: "\<not> py_in ''HumanMessage'' (py_str (JObj ?a))" by code_simp
  have a5: "py_in ''AIMessage'' (py_str (JObj ?a))" by code_simp
  have H: "validate_item (JObj ?h) = Inr (Some (HumanMessage ''HumanMessage''))"
    using heuristic_role [OF h1 _ h2 h3] h4
    by (simp del: py_str.simps py_in.simps validate_item.simps)
  have A: "validate_item (JObj ?a) = Inr (Some (AIMessage ''AIMessage''))"
    using heuristic_role [OF a1 _ a2 a3] a4 a5
    by (simp del: py_str.simps py_in.simps validate_item.simps)
  from h1 a1 H A show ?thesis by blast
qed

section \<open>Saving and loading again\<close>

text \<open>
  Claim C4, as stated, at the conversation of the single human message \<^verbatim>\<open>" hi"\<close>: the
  fresh instance loads the message \<^verbatim>\<open>"hi"\<close>, since the loader trims the text.
\<close>

theorem roundtrip_trims_counterexample:
  "save_then_load (loads_only (JArr [message_to_dict (HumanMessage '' hi'')])) dumps Map.empty
     \<lparr>path = ''chat_memory.json'', messages = [HumanMessage '' hi'']\<rparr>
   = Inr [HumanMessage ''hi''] \<and>
   save_then_load (loads_only (JArr [message_to_dict (HumanMessage '' hi'')])) dumps Map.empty
     \<lparr>path = ''chat_memory.json'', messages = [HumanMessage '' hi'']\<rparr>
   \<noteq> Inr [HumanMessage '' hi'']"
proof -
  let ?st = "\<lparr>path = ''chat_memory.json'', messages = [HumanMessage '' hi'']\<rparr>"
  let ?D = "JArr [message_to_dict (HumanMessage '' hi'')]"
  have sr: "save_records ?st = [message_to_dict (HumanMessage '' hi'')]"
    by (simp add: save_records_def del: message_to_dict.simps)
  have r: "reads_back (loads_only ?D) dumps (JArr (save_records ?st))"
    unfolding sr by (simp add: reads_back_def loads_only_def del: dumps.simps message_to_dict.simps)
  obtain f' where f': "atomic_save dumps Map.empty ?st = Inr f'" by (simp add: atomic_save_eq)
  have v: "validate_items (save_records ?st) [] = Inr [HumanMessage ''hi'']"
    unfolding sr using strip_hi
    by (simp add: validate_item_human del: validate_item.simps message_to_dict.simps)
  have "init (loads_only ?D) f' (path ?st) = Inr (f', \<lparr>path = path ?st, messages = [HumanMessage ''hi'']\<rparr>)"
    using init_after_save [OF r f'] v by simp
  then have "save_then_load (loads_only ?D) dumps Map.empty ?st = Inr [HumanMessage ''hi'']"
    using f' by (simp add: save_then_load_def)
  then show ?thesis by simp
qed

text \<open>
  Claim C4, amended. A conversation of messages whose texts are not empty and have no
  whitespace at either end, and whose AI messages do not contain \<^verbatim>\<open>HumanMessage\<close>, is
  loaded by a fresh instance as it was saved: the same messages, in the same order,
  with the same roles; the empty conversation is one of them. \<^verbatim>\<open>json.load\<close> is taken
  to read back what \<^verbatim>\<open>json.dump\<close> wrote.
\<close>

theorem save_load_roundtrip:
  assumes "\<forall>m\<in>set ms. faithful m"
    and "reads_back json_load json_dump (JArr (map message_to_dict ms))"
  shows "save_then_load json_load json_dump f \<lparr>path = p, messages = ms\<rparr> = Inr ms"
proof -
  let ?st = "\<lparr>path = p, messages = ms\<rparr>"
  have sr: "save_records ?st = map message_to_dict ms"
    using assms(1) by (rule save_records_faithful)
  obtain f' where f': "atomic_save json_dump f ?st = Inr f'" by (simp add: atomic_save_eq)
  have v: "validate_items (save_records ?st) [] = Inr ms"
    using validate_items_faithful [OF assms(1), of "[]"] sr by simp
  have "init json_load f' (path ?st) = Inr (f', ?st)"
    using init_after_save [OF _ f', of json_load] assms(2) sr v by simp
  then show ?thesis using f' by (simp add: save_then_load_def)
qed

theorem save_load_roundtrip_witness:
  "save_then_load (loads_only (JArr (map message_to_dict [HumanMessage ''hi'', AIMessage ''hello''])))
     dumps Map.empty \<lparr>path = ''chat_memory.json'', messages = [HumanMessage ''hi'', AIMessage ''hello'']\<rparr>
   = Inr [HumanMessage ''hi'', AIMessage ''hello''] \<and>
   save_then_load (loads_only (JArr [])) dumps Map.empty
     \<lparr>path = ''chat_memory.json'', messages = []\<rparr>
   = Inr []"
proof -
  have s1: "strip ''hi'' = ''hi''" "strip ''hello'' = ''hello''"
    by (simp_all add: strip_def isspace_def)
  have f: "\<forall>m\<in>set [HumanMessage ''hi'', AIMessage ''hello'']. faithful m"
    using s1 by (simp add: faithful_def)
  have r: "reads_back (loads_only (JArr (map message_to_dict [HumanMessage ''hi'', AIMessage ''hello''])))
             dumps (JArr (map message_to_dict [HumanMessage ''hi'', AIMessage ''hello'']))"
    by (simp add: reads_back_def loads_only_def del: dumps.simps)
  have f0: "\<forall>m\<in>set []. faithful m"
    by simp
  have r0: "reads_back (loads_only (JArr [])) dumps (JArr (map message_to_dict []))"
    by (simp add: reads_back_def loads_only_def del: dumps.simps)
  show ?thesis
    using save_load_roundtrip [OF f r] save_load_roundtrip [OF f0 r0]
    by simp
qed

subsection \<open>Recording a turn\<close>

text \<open>
  Claim C5, as stated, at the question \<^verbatim>\<open>"Q "\<close> and the answer \<^verbatim>\<open>"A"\<close> on an empty
  conversation: the turn is recorded and saved, and the fresh instance loads the human
  message \<^verbatim>\<open>"Q"\<close>; the message \<^verbatim>\<open>"Q "\<close> is not in its conversation.
\<close>

theorem turn_trimmed_counterexample:
  "turn_then_load
     (loads_only (JArr [message_to_dict (HumanMessage ''Q ''), message_to_dict (AIMessage ''A'')]))
     dumps Map.empty \<lparr>path = ''chat_memory.json'', messages = []\<rparr> ''Q '' ''A''
   = Inr ([HumanMessage ''Q '', AIMessage ''A''], [HumanMessage ''Q'', AIMessage ''A'']) \<and>
   HumanMessage ''Q '' \<notin> set [HumanMessage ''Q'', AIMessage ''A'']"
proof -
  let ?st = "\<lparr>path = ''chat_memory.json'', messages = []\<rparr>"
  let ?st' = "\<lparr>path = ''chat_memory.json'', messages = [HumanMessage ''Q '', AIMessage ''A'']\<rparr>"
  let ?D = "JArr [message_to_dict (HumanMessage ''Q ''), message_to_dict (AIMessage ''A'')]"
  have s: "strip ''Q '' = ''Q''" "strip ''A'' = ''A''" by (simp_all add: strip_def isspace_def)
  have n: "\<not> py_in ''HumanMessage'' (repr_body ''A'')" by (simp add: repr_body_def repr_eval)
  have sr: "save_records ?st' = [message_to_dict (HumanMessage ''Q ''), message_to_dict (AIMessage ''A'')]"
    by (simp add: save_records_def del: message_to_dict.simps)
  obtain f' where f': "record_turn dumps Map.empty ?st ''Q '' ''A'' = Inr (f', ?st')"
    and sv: "atomic_save dumps Map.empty ?st' = Inr f'"
    by (simp add: record_turn_eq atomic_save_eq del: dumps.simps)
  have r: "reads_back (loads_only ?D) dumps (JArr (save_records ?st'))"
    unfolding sr by (simp add: reads_back_def loads_only_def del: dumps.simps message_to_dict.simps)
  have v: "validate_items (save_records ?st') [] = Inr [HumanMessage ''Q'', AIMessage ''A'']"
    unfolding sr using s n
    by (simp add: validate_item_human validate_item_ai
        del: validate_item.simps message_to_dict.simps py_in.simps)
  have "init (loads_only ?D) f' (path ?st')
          = Inr (f', \<lparr>path = path ?st', messages = [HumanMessage ''Q'', AIMessage ''A'']\<rparr>)"
    using init_after_save [OF r sv] v by simp
  then have "turn_then_load (loads_only ?D) dumps Map.empty ?st ''Q '' ''A''
   = Inr ([HumanMessage ''Q '', AIMessage ''A''], [HumanMessage ''Q'', AIMessage ''A''])"
    using f' by (simp add: turn_then_load_def)
  then show ?thesis by simp
qed

text \<open>
  Claim C5, amended. For every prior conversation state and every question and answer,
  not empty, after recording the turn has returned successfully the human message and
  the AI message are the last two of the conversation in memory. When, moreover, neither
  text has whitespace at its ends, the answer does not contain \<^verbatim>\<open>HumanMessage\<close>, and
  \<^verbatim>\<open>json.load\<close> reads back what \<^verbatim>\<open>json.dump\<close> wrote, the conversation that a fresh
  instance loads from the same path ends with these two messages.
\<close>

theorem turn_durable:
  assumes "record_turn json_dump f st q a = Inr (f', st')"
  shows "messages st' = messages st @ [HumanMessage q, AIMessage a] \<and>
         (strip q = q \<and> strip a = a \<and> \<not> py_in ''HumanMessage'' a \<and>
          reads_back json_load json_dump (JArr (save_records st')) \<longrightarrow>
          (\<exists>ms. turn_then_load json_load json_dump f st q a
             = Inr (messages st @ [HumanMessage q, AIMessage a],
                    ms @ [HumanMessage q, AIMessage a])))"
proof (intro conjI impI)
  let ?st = "st\<lparr>messages := messages st @ [HumanMessage q, AIMessage a]\<rparr>"
  have ne: "q \<noteq> []" "a \<noteq> []"
    using record_turn_Inr [OF assms] by simp_all
  let ?F = "(f(path st @ ''.tmp'' := None))(path st \<mapsto> json_dump (JArr (save_records ?st)))"
  have rt: "record_turn json_dump f st q a = Inr (?F, ?st)"
    using ne by (rule record_turn_eq)
  have "Inr (f', st') = (Inr (?F, ?st) :: py_error + fs \<times> store)"
    using assms [symmetric] rt by (rule trans)
  then have both: "f' = ?F \<and> st' = ?st"
    by (simp only: sum.inject prod.inject)
  then have st': "st' = ?st"
    by (rule conjunct2)
  have "atomic_save json_dump f ?st = Inr ?F"
    by (simp add: atomic_save_eq)
  then have sv: "atomic_save json_dump f ?st = Inr f'"
    using both by (simp only:)
  show "messages st' = messages st @ [HumanMessage q, AIMessage a]"
    using st' by simp
  assume h: "strip q = q \<and> strip a = a \<and> \<not> py_in ''HumanMessage'' a \<and>
             reads_back json_load json_dump (JArr (save_records st'))"
  let ?old = "filter (\<lambda>m. content m \<noteq> []) (messages st)"
  have sr: "save_records ?st
            = map message_to_dict ?old @ map message_to_dict [HumanMessage q, AIMessage a]"
    using ne by (simp add: save_records_def del: message_to_dict.simps)
  obtain ms where ms: "validate_items (map message_to_dict ?old) [] = Inr ms"
    using validate_items_records_total by blast
  have fa: "\<forall>m\<in>set [HumanMessage q, AIMessage a]. faithful m"
    using ne h by (simp add: faithful_def)
  have v: "validate_items (save_records ?st) [] = Inr (ms @ [HumanMessage q, AIMessage a])"
    unfolding sr validate_items_append ms using validate_items_faithful [OF fa, of ms] by simp
  have "init json_load f' (path ?st)
          = Inr (f', \<lparr>path = path ?st, messages = ms @ [HumanMessage q, AIMessage a]\<rparr>)"
    using init_after_save [OF _ sv, of json_load] h st' v by simp
  then have "turn_then_load json_load json_dump f st q a
             = Inr (messages st @ [HumanMessage q, AIMessage a], ms @ [HumanMessage q, AIMessage a])"
    using assms st' by (simp add: turn_then_load_def)
  then show "\<exists>ms. turn_then_load json_load json_dump f st q a
             = Inr (messages st @ [HumanMessage q, AIMessage a], ms @ [HumanMessage q, AIMessage a])"
    by blast
qed

theorem turn_durable_witness:
  "record_turn dumps Map.empty \<lparr>path = ''chat_memory.json'', messages = [AIMessage ''old'']\<rparr> ''Q'' ''A''
     = Inr (Map.empty(''chat_memory.json'' \<mapsto>
              dumps (JArr (map message_to_dict [AIMessage ''old'', HumanMessage ''Q'', AIMessage ''A'']))),
            \<lparr>path = ''chat_memory.json'',
               messages = [AIMessage ''old'', HumanMessage ''Q'', AIMessage ''A'']\<rparr>) \<and>
   strip ''Q'' = ''Q'' \<and> strip ''A'' = ''A'' \<and> \<not> py_in ''HumanMessage'' ''A'' \<and>
   (\<exists>ms. turn_then_load
      (loads_only (JArr (map message_to_dict [AIMessage ''old'', HumanMessage ''Q'', AIMessage ''A''])))
      dumps Map.empty \<lparr>path = ''chat_memory.json'', messages = [AIMessage ''old'']\<rparr> ''Q'' ''A''
    = Inr ([AIMessage ''old'', HumanMessage ''Q'', AIMessage ''A''],
           ms @ [HumanMessage ''Q'', AIMessage ''A'']))"
proof -
  let ?st = "\<lparr>path = ''chat_memory.json'', messages = [AIMessage ''old'']\<rparr>"
  let ?st' = "\<lparr>path = ''chat_memory.json'',
                messages = [AIMessage ''old'', HumanMessage ''Q'', AIMessage ''A'']\<rparr>"
  let ?D = "JArr (map message_to_dict [AIMessage ''old'', HumanMessage ''Q'', AIMessage ''A''])"
  let ?f' = "Map.empty(''chat_memory.json'' \<mapsto> dumps ?D) :: fs"
  have s: "strip ''Q'' = ''Q''" "strip ''A'' = ''A''"
    by (simp_all add: strip_def isspace_def)
  have n: "\<not> py_in ''HumanMessage'' ''A''"
    by simp
  have sr: "save_records ?st'
            = map message_to_dict [AIMessage ''old'', HumanMessage ''Q'', AIMessage ''A'']"
    by (simp add: save_records_def del: message_to_dict.simps)
  have t: "record_turn dumps Map.empty ?st ''Q'' ''A'' = Inr (?f', ?st')"
    using sr by (simp add: record_turn_eq del: dumps.simps message_to_dict.simps)
  have r: "reads_back (loads_only ?D) dumps (JArr (save_records ?st'))"
    unfolding sr by (simp add: reads_back_def loads_only_def del: dumps.simps message_to_dict.simps)
  have "\<exists>ms. turn_then_load (loads_only ?D) dumps Map.empty ?st ''Q'' ''A''
    = Inr (messages ?st @ [HumanMessage ''Q'', AIMessage ''A''],
           ms @ [HumanMessage ''Q'', AIMessage ''A''])"
    using turn_durable [OF t, of "loads_only ?D"] s n r by blast
  then show ?thesis
    using t s n by simp
qed

subsection \<open>Blank messages\<close>

text \<open>
  Claim C6, as stated, at the turn whose question is one space: the turn is recorded,
  and the records written to the store file include the human message whose content is
  that space, a whitespace-only text.
\<close>

theorem whitespace_saved_counterexample:
  "record_turn dumps Map.empty \<lparr>path = ''chat_memory.json'', messages = []\<rparr> '' '' ''A''
     = Inr (Map.empty(''chat_memory.json'' \<mapsto>
              dumps (JArr [message_to_dict (HumanMessage '' ''), message_to_dict (AIMessage ''A'')])),
            \<lparr>path = ''chat_memory.json'', messages = [HumanMessage '' '', AIMessage ''A'']\<rparr>) \<and>
   save_records \<lparr>path = ''chat_memory.json'', messages = [HumanMessage '' '', AIMessage ''A'']\<rparr>
     = [message_to_dict (HumanMessage '' ''), message_to_dict (AIMessage ''A'')] \<and>
   blank (content (HumanMessage '' ''))"
proof -
  have b: "blank (content (HumanMessage '' ''))" by (simp add: blank_def strip_def isspace_def)
  have sr: "save_records \<lparr>path = ''chat_memory.json'', messages = [HumanMessage '' '', AIMessage ''A'']\<rparr>
     = [message_to_dict (HumanMessage '' ''), message_to_dict (AIMessage ''A'')]"
    by (simp add: save_records_def del: message_to_dict.simps)
  have "record_turn dumps Map.empty \<lparr>path = ''chat_memory.json'', messages = []\<rparr> '' '' ''A''
     = Inr (Map.empty(''chat_memory.json'' \<mapsto>
              dumps (JArr [message_to_dict (HumanMessage '' ''), message_to_dict (AIMessage ''A'')])),
            \<lparr>path = ''chat_memory.json'', messages = [HumanMessage '' '', AIMessage ''A'']\<rparr>)"
    using sr by (simp add: record_turn_eq del: dumps.simps message_to_dict.simps)
  with sr b show ?thesis by blast
qed

text \<open>
  Claim C6, amended. Every record that a save writes is the record of a message whose
  content is not empty, and no message of the conversation that a fresh instance loads,
  from any store file, has an empty or whitespace-only content.
\<close>

theorem no_blank_loaded_no_empty_saved:
  "(\<forall>r\<in>set (save_records st). \<exists>m. r = message_to_dict m \<and> content m \<noteq> []) \<and>
   (\<exists>f' st'. init json_load f p = Inr (f', st') \<and> (\<forall>m\<in>set (messages st'). \<not> blank (content m)))"
proof
  show "\<forall>r\<in>set (save_records st). \<exists>m. r = message_to_dict m \<and> content m \<noteq> []"
    by (auto simp: save_records_def)
next
  show "\<exists>f' st'. init json_load f p = Inr (f', st') \<and> (\<forall>m\<in>set (messages st'). \<not> blank (content m))"
  proof (cases "f p")
    case None
    then show ?thesis by (simp add: init_def verify_and_load_def)
  next
    case (Some bytes)
    show ?thesis
    proof (cases "read_messages json_load bytes")
      case (Inl e)
      with Some show ?thesis
        by (simp add: init_def verify_and_load_def backup_and_reset_def Let_def)
    next
      case (Inr r)
      then have "\<exists>data. validate_items data [] = Inr r"
        by (auto simp: read_messages_def split: option.splits json.splits)
      then have "\<forall>m\<in>set r. \<not> blank (content m)"
        using validate_items_not_blank [of _ "[]" r] by auto
      with Some Inr show ?thesis by (simp add: init_def verify_and_load_def)
    qed
  qed
qed

theorem no_blank_loaded_no_empty_saved_witness:
  "save_records \<lparr>path = ''chat_memory.json'', messages = [HumanMessage [], AIMessage ''A'']\<rparr>
     = [message_to_dict (AIMessage ''A'')] \<and>
   init (loads_only (JArr [flat_record ''human'' '' '', flat_record ''ai'' ''A'']))
     (Map.empty(''chat_memory.json'' \<mapsto> dumps (JArr [flat_record ''human'' '' '', flat_record ''ai'' ''A''])))
     ''chat_memory.json''
   = Inr (Map.empty(''chat_memory.json'' \<mapsto> dumps (JArr [flat_record ''human'' '' '', flat_record ''ai'' ''A''])),
          \<lparr>path = ''chat_memory.json'', messages = [AIMessage ''A'']\<rparr>) \<and>
   \<not> blank ''A''"
proof -
  let ?D = "JArr [flat_record ''human'' '' '', flat_record ''ai'' ''A'']"
  let ?f = "Map.empty(''chat_memory.json'' \<mapsto> dumps ?D) :: fs"
  let ?st = "\<lparr>path = ''chat_memory.json'', messages = [HumanMessage [], AIMessage ''A'']\<rparr>"
  have s: "strip '' '' = []" "strip ''A'' = ''A''"
    by (simp_all add: strip_def isspace_def)
  have h: "\<not> py_in ''HumanMessage'' (py_str (flat_record ''ai'' ''A''))"
    by (simp add: py_in_flat_ai repr_body_def repr_eval)
  have v: "validate_items [flat_record ''human'' '' '', flat_record ''ai'' ''A''] [] = Inr [AIMessage ''A'']"
    using s h
    by (simp add: flat_record_def item_content_flat dict_get_def Let_def
        del: py_str.simps py_in.simps)
  have i: "init (loads_only ?D) ?f ''chat_memory.json''
           = Inr (?f, \<lparr>path = ''chat_memory.json'', messages = [AIMessage ''A'']\<rparr>)"
    using v by (simp add: init_def verify_and_load_def read_messages_def loads_only_def
        del: dumps.simps validate_items.simps)
  have b: "\<not> blank ''A''"
    using s by (simp add: blank_def)
  have sv: "save_records ?st = [message_to_dict (AIMessage ''A'')]"
    by (simp add: save_records_def del: message_to_dict.simps)
  show ?thesis
    using no_blank_loaded_no_empty_saved [of ?st "loads_only ?D" ?f "''chat_memory.json''"] sv i b
    by blast
qed

section \<open>The merged history\<close>

text \<open>
  Claim C7, as stated, at a store file of two equal human records, with the memory
  loaded from it: the merged sequence holds the same message twice.
\<close>

theorem file_duplicates_counterexample:
  "load_chat_history app_isinstance_human
     (loads_only (JArr [message_to_dict (HumanMessage ''hi''), message_to_dict (HumanMessage ''hi'')]))
     (Map.empty(''chat_memory.json'' \<mapsto>
        dumps (JArr [message_to_dict (HumanMessage ''hi''), message_to_dict (HumanMessage ''hi'')])))
     [HumanMessage ''hi'', HumanMessage ''hi''] []
   = [\<lparr>ui_role = ''user'', ui_content = JStr ''hi''\<rparr>,
      \<lparr>ui_role = ''user'', ui_content = JStr ''hi''\<rparr>] \<and>
   \<not> distinct [\<lparr>ui_role = ''user'', ui_content = JStr ''hi''\<rparr>,
      \<lparr>ui_role = ''user'', ui_content = JStr ''hi''\<rparr>]"
  by (simp add: load_chat_history_def import_file_def loads_only_def dict_get_def
      app_isinstance_human_def Let_def del: dumps.simps)

text \<open>
  Claim C7, amended. When the store file is read without a failure, the merged sequence
  is the sequence before the call, then one message for each dict record of the file
  whose content is not empty, in the order of the file and with no comparison among
  them, then the messages added from the memory. An added message has the content of a
  message of the memory, and that content differs from the content of every message
  before it in the sequence, whatever the roles. So the merged sequence contains no two
  identical messages whenever the sequence before the call and the messages read from
  the file contain none.
\<close>

theorem merge_dedup:
  assumes "f ''chat_memory.json'' = Some bytes"
    and "json_load bytes = Some (JArr data)"
    and "\<forall>e\<in>set data. data_is_dict e"
  shows "\<exists>added.
           load_chat_history isinstance_human json_load f mem ms
             = ms @ List.map_filter file_message data @ added \<and>
           distinct (map ui_content added) \<and>
           (\<forall>m\<in>set added.
              ui_content m \<notin> ui_content ` set (ms @ List.map_filter file_message data) \<and>
              (\<exists>msg\<in>set mem. ui_content m = JStr (content msg))) \<and>
           (distinct (ms @ List.map_filter file_message data) \<longrightarrow>
              distinct (load_chat_history isinstance_human json_load f mem ms))"
proof -
  let ?pre = "ms @ List.map_filter file_message data"
  have i: "import_file json_load f ms = (?pre, None)"
    using assms import_records_exact [of data ms] by (simp add: import_file_def)
  then have l: "load_chat_history isinstance_human json_load f mem ms
                = import_memory isinstance_human mem ?pre"
    by (simp add: load_chat_history_def)
  obtain added where a: "import_memory isinstance_human mem ?pre = ?pre @ added"
    and d: "distinct (map ui_content added)"
    and n: "\<forall>m\<in>set added. ui_content m \<notin> ui_content ` set ?pre \<and>
              (\<exists>msg\<in>set mem. ui_content m = JStr (content msg))"
    using import_memory_added [of isinstance_human mem ?pre] by blast
  have "distinct ?pre \<longrightarrow> distinct (?pre @ added)"
    using d n distinct_added [of ?pre added] by blast
  with l a d n show ?thesis
    by auto
qed

theorem merge_dedup_witness:
  "load_chat_history app_isinstance_human
     (loads_only (JArr [message_to_dict (HumanMessage ''hi''), message_to_dict (AIMessage ''hi'')]))
     (Map.empty(''chat_memory.json'' \<mapsto>
        dumps (JArr [message_to_dict (HumanMessage ''hi''), message_to_dict (AIMessage ''hi'')])))
     [HumanMessage ''hi'', AIMessage ''hi''] []
   = [\<lparr>ui_role = ''user'', ui_content = JStr ''hi''\<rparr>,
      \<lparr>ui_role = ''assistant'', ui_content = JStr ''hi''\<rparr>] \<and>
   distinct (load_chat_history app_isinstance_human
     (loads_only (JArr [message_to_dict (HumanMessage ''hi''), message_to_dict (AIMessage ''hi'')]))
     (Map.empty(''chat_memory.json'' \<mapsto>
        dumps (JArr [message_to_dict (HumanMessage ''hi''), message_to_dict (AIMessage ''hi'')])))
     [HumanMessage ''hi'', AIMessage ''hi''] [])"
proof -
  let ?data = "[message_to_dict (HumanMessage ''hi''), message_to_dict (AIMessage ''hi'')]"
  let ?f = "Map.empty(''chat_memory.json'' \<mapsto> dumps (JArr ?data)) :: fs"
  let ?mem = "[HumanMessage ''hi'', AIMessage ''hi'']"
  let ?u = "\<lparr>ui_role = ''user'', ui_content = JStr ''hi''\<rparr>"
  let ?a = "\<lparr>ui_role = ''assistant'', ui_content = JStr ''hi''\<rparr>"
  have f: "?f ''chat_memory.json'' = Some (dumps (JArr ?data))"
    by simp
  have j: "loads_only (JArr ?data) (dumps (JArr ?data)) = Some (JArr ?data)"
    by (simp add: loads_only_def del: dumps.simps)
  have w: "\<forall>e\<in>set ?data. data_is_dict e"
    by (simp add: dict_get_def)
  have m: "List.map_filter file_message ?data = [?u, ?a]"
    by (simp add: List.map_filter_simps dict_get_def Let_def)
  have v: "load_chat_history app_isinstance_human (loads_only (JArr ?data)) ?f ?mem [] = [?u, ?a]"
    by (simp add: load_chat_history_def import_file_def loads_only_def dict_get_def
        app_isinstance_human_def Let_def del: dumps.simps)
  have "distinct ([] @ [?u, ?a])"
    by simp
  then have "distinct (load_chat_history app_isinstance_human (loads_only (JArr ?data)) ?f ?mem [])"
    using merge_dedup [of ?f "dumps (JArr ?data)" "loads_only (JArr ?data)" ?data
        app_isinstance_human ?mem "[]"] f j w m
    by auto
  with v show ?thesis
    by simp
qed

section \<open>The not-indexed guard\<close>

text \<open>
  Claim C9. A query on a system whose index has not been built fails with the error of
  the guard of \<^verbatim>\<open>query\<close>, the \<^verbatim>\<open>ValueError\<close> that asks for a PDF first, whatever the
  question; after \<^verbatim>\<open>process_pdf\<close> has succeeded the index is set, and when it is not
  empty the query is the search of that index, so the guard does not fire.
\<close>

theorem query_guard:
  "(vector_db st = None \<longrightarrow>
      query index_len similarity_search st question k
        = Inl (ValueError ''Primero debes cargar un documento PDF.'')) \<and>
   (process_pdf build st0 file_path = Inr (st1, n) \<longrightarrow>
      (\<exists>db. vector_db st1 = Some db \<and>
            (0 < index_len db \<longrightarrow>
               query index_len similarity_search st1 question k
                 = similarity_search db question k)))"
  by (auto simp: query_def process_pdf_def split: sum.splits prod.splits)

theorem query_guard_witness:
  "vector_db (rag_init :: nat rag_system) = None \<and>
   query id (\<lambda>db q k. Inr [''fragment'']) (rag_init :: nat rag_system) ''What?'' 3
     = Inl (ValueError ''Primero debes cargar un documento PDF.'') \<and>
   process_pdf (\<lambda>p. Inr (7, 12)) (rag_init :: nat rag_system) ''data/documento.pdf''
     = Inr (\<lparr>vector_db = Some (7::nat)\<rparr>, 12) \<and>
   0 < id (7::nat) \<and>
   query id (\<lambda>db q k. Inr [''fragment'']) \<lparr>vector_db = Some (7::nat)\<rparr> ''What?'' 3
     = Inr [''fragment'']"
  using query_guard [of "rag_init :: nat rag_system" id "\<lambda>db q k. Inr [''fragment'']" "''What?''" 3
      "\<lambda>p. Inr (7, 12)" rag_init "''data/documento.pdf''" "\<lparr>vector_db = Some (7::nat)\<rparr>" 12]
  by (simp add: rag_init_def process_pdf_def)

end
